theory Spec2Isabelle
  imports Main "HOL-Library.AList"
begin

section \<open>JavaScript values and the runtime\<close>

text \<open>
  The Task constructor and \<open>update\<close> take loosely typed records, so the values they
  inspect are modelled as a datatype of JavaScript values. Numbers are the integer-valued
  ones; a \<open>Date\<close> carries its time value in milliseconds, \<open>None\<close> being the invalid date
  (time value NaN). Strings are lists of 8-bit characters, so the model covers the
  Latin-1 part of a JavaScript string and \<open>length\<close> counts its code units.
\<close>

datatype jsval =
    JUndefined
  | JNull
  | JBool bool
  | JNum int
  | JStr string
  | JDate "int option"
  | JArr "jsval list"
  | JObj "(string \<times> jsval) list"

datatype error =
    TitleRequired              \<comment> \<open>Task title is required and must be a string\<close>
  | TitleEmpty                 \<comment> \<open>Task title cannot be empty\<close>
  | TitleTooLong               \<comment> \<open>Task title cannot exceed 100 characters\<close>
  | DescriptionNotString       \<comment> \<open>Task description must be a string\<close>
  | DescriptionTooLong         \<comment> \<open>Task description cannot exceed 500 characters\<close>
  | InvalidStatus jsval        \<comment> \<open>Invalid status: ...\<close>
  | InvalidPriority jsval      \<comment> \<open>Invalid priority: ...\<close>
  | DueDateType                \<comment> \<open>Due date must be a Date object or valid date string\<close>
  | DueDateInvalid             \<comment> \<open>Invalid due date provided\<close>
  | TagsType                   \<comment> \<open>Tags must be an array or comma-separated string\<close>
  | TagTooLong                 \<comment> \<open>Each tag cannot exceed 20 characters\<close>
  | TooManyTags                \<comment> \<open>Cannot have more than 10 tags per task\<close>
  | SubtaskNoTitle nat         \<comment> \<open>Sub-task n must have a title\<close>
  | SubtaskEmptyTitle nat      \<comment> \<open>Sub-task n title cannot be empty\<close>
  | SubtaskTitleTooLong nat    \<comment> \<open>Sub-task n title cannot exceed 100 characters\<close>
  | SubtaskInvalidFormat nat   \<comment> \<open>Sub-task n has invalid format\<close>
  | TooManySubtasks            \<comment> \<open>Cannot have more than 20 sub-tasks per task\<close>
  | AddTagNotString            \<comment> \<open>Tag must be a non-empty string\<close>
  | AddTagEmpty                \<comment> \<open>Tag cannot be empty\<close>
  | AddTagTooLong              \<comment> \<open>Tag cannot exceed 20 characters\<close>
  | AddTagLimit                \<comment> \<open>Cannot add more than 10 tags\<close>
  | AddSubtaskNoTitle          \<comment> \<open>Sub-task title is required\<close>
  | AddSubtaskEmpty            \<comment> \<open>Sub-task title cannot be empty\<close>
  | AddSubtaskTooLong          \<comment> \<open>Sub-task title cannot exceed 100 characters\<close>
  | AddSubtaskLimit            \<comment> \<open>Cannot add more than 20 sub-tasks\<close>
  | TypeError                  \<comment> \<open>raised by the runtime or by \<open>saveTasks\<close>\<close>
  | RangeError                 \<comment> \<open>\<open>toISOString\<close> of an invalid date\<close>
  | SyntaxError                \<comment> \<open>\<open>JSON.parse\<close> of malformed text\<close>
  | QuotaExceededError         \<comment> \<open>a write the store rejects for capacity\<close>
  | StorageError               \<comment> \<open>any other exception of the store\<close>

datatype store_op =
    GetItem string
  | SetItem string string
  | RemoveItem string
  | StoreLength
  | StoreKey nat

datatype log_entry =
    LogSkipped nat             \<comment> \<open>Skipped n invalid tasks\<close>
  | LogLoaded nat              \<comment> \<open>Loaded n tasks successfully\<close>
  | LogUnexpected error        \<comment> \<open>Unexpected error loading tasks\<close>

text \<open>
  What the code takes from its platform is a parameter of the model: the identifiers of
  \<open>crypto.randomUUID\<close> and the readings of the clock (the n-th call returns the n-th
  value), the parser and the ISO printer of \<open>Date\<close>, \<open>String\<close> on numbers and dates,
  \<open>JSON.parse\<close> (\<open>None\<close> is a SyntaxError) and \<open>JSON.stringify\<close>, and the behaviour
  of \<open>localStorage\<close> under failure: \<open>rt_fault rt n items op\<close> is the exception that the
  n-th operation on the store raises, if any, given the current contents. Values carry
  no object identity, so whether two objects, arrays or dates are one and the same
  object is a parameter too (\<open>rt_same_object\<close>).
\<close>

record runtime =
  rt_uuid :: "nat \<Rightarrow> string"
  rt_clock :: "nat \<Rightarrow> int"
  rt_date_parse :: "string \<Rightarrow> int option"
  rt_to_iso :: "int \<Rightarrow> string"
  rt_date_string :: "int option \<Rightarrow> string"
  rt_num_string :: "int \<Rightarrow> string"
  rt_json_parse :: "string \<Rightarrow> jsval option"
  rt_json_stringify :: "jsval \<Rightarrow> string"
  rt_fault :: "nat \<Rightarrow> (string \<times> string) list \<Rightarrow> store_op \<Rightarrow> error option"
  rt_same_object :: "jsval \<Rightarrow> jsval \<Rightarrow> bool"

text \<open>
  The state the Task class reads: how many identifiers and clock readings were taken.
  The state the storage manager works on adds the contents of \<open>localStorage\<close> (in key
  order), the number of store operations done and what was logged.
\<close>

record gen =
  uuid_ctr :: nat
  clock_ctr :: nat

record world =
  gen :: gen
  items :: "(string \<times> string) list"
  op_ctr :: nat
  console :: "log_entry list"

text \<open>Statements that may throw, over a state \<open>'s\<close>.\<close>

type_synonym ('s, 'a) M = "'s \<Rightarrow> (error + 'a) \<times> 's"

definition ret :: "'a \<Rightarrow> ('s, 'a) M" where
  "ret x s = (Inr x, s)"

definition throw :: "error \<Rightarrow> ('s, 'a) M" where
  "throw e s = (Inl e, s)"

definition bind :: "('s, 'a) M \<Rightarrow> ('a \<Rightarrow> ('s, 'b) M) \<Rightarrow> ('s, 'b) M" where
  "bind m f s = (case m s of (Inl e, s') \<Rightarrow> (Inl e, s') | (Inr x, s') \<Rightarrow> f x s')"

definition try_catch :: "('s, 'a) M \<Rightarrow> (error \<Rightarrow> ('s, 'a) M) \<Rightarrow> ('s, 'a) M" where
  "try_catch m h s = (case m s of (Inl e, s') \<Rightarrow> h e s' | (Inr x, s') \<Rightarrow> (Inr x, s'))"

definition lift :: "error + 'a \<Rightarrow> ('s, 'a) M" where
  "lift r s = (r, s)"

definition in_gen :: "(gen, 'a) M \<Rightarrow> (world, 'a) M" where
  "in_gen m w = (case m (gen w) of (r, g') \<Rightarrow> (r, w\<lparr>gen := g'\<rparr>))"

definition log :: "log_entry \<Rightarrow> (world, unit) M" where
  "log l w = (Inr (), w\<lparr>console := console w @ [l]\<rparr>)"

subsection \<open>Strings\<close>

definition is_space :: "char \<Rightarrow> bool" where
  "is_space c = ((of_char c :: nat) \<in> {9, 10, 11, 12, 13, 32, 160})"

definition trim :: "string \<Rightarrow> string" where
  "trim s = rev (dropWhile is_space (rev (dropWhile is_space s)))"

definition lower_char :: "char \<Rightarrow> char" where
  "lower_char c =
     (let n = (of_char c :: nat)
      in if (65 \<le> n \<and> n \<le> 90) \<or> (192 \<le> n \<and> n \<le> 222 \<and> n \<noteq> 215)
         then char_of (n + 32) else c)"

definition toLowerCase :: "string \<Rightarrow> string" where
  "toLowerCase s = map lower_char s"

fun split_comma :: "string \<Rightarrow> string \<Rightarrow> string list" where
  "split_comma acc [] = [rev acc]"
| "split_comma acc (c # cs) =
     (if c = CHR '','' then rev acc # split_comma [] cs else split_comma (c # acc) cs)"

definition split :: "string \<Rightarrow> string list" where
  "split s = split_comma [] s"

fun join :: "string list \<Rightarrow> string" where
  "join [] = []"
| "join [x] = x"
| "join (x # y # ys) = x @ '','' @ join (y # ys)"

text \<open>\<open>[...new Set(xs)]\<close>: the first occurrence of each element, in order.\<close>

definition set_insert :: "'a list \<Rightarrow> 'a \<Rightarrow> 'a list" where
  "set_insert acc x = (if x \<in> set acc then acc else acc @ [x])"

definition unique :: "'a list \<Rightarrow> 'a list" where
  "unique xs = foldl set_insert [] xs"

subsection \<open>Coercions of the language\<close>

fun truthy :: "jsval \<Rightarrow> bool" where
  "truthy JUndefined = False"
| "truthy JNull = False"
| "truthy (JBool b) = b"
| "truthy (JNum n) = (n \<noteq> 0)"
| "truthy (JStr s) = (s \<noteq> [])"
| "truthy (JDate d) = True"
| "truthy (JArr xs) = True"
| "truthy (JObj kvs) = True"

fun is_string :: "jsval \<Rightarrow> bool" where
  "is_string (JStr s) = True"
| "is_string v = False"

fun is_array :: "jsval \<Rightarrow> bool" where
  "is_array (JArr xs) = True"
| "is_array v = False"

text \<open>\<open>typeof v === 'object'\<close>\<close>

fun is_object :: "jsval \<Rightarrow> bool" where
  "is_object JNull = True"
| "is_object (JDate d) = True"
| "is_object (JArr xs) = True"
| "is_object (JObj kvs) = True"
| "is_object v = False"

text \<open>
  Reading a property of a value that is neither \<open>null\<close> nor \<open>undefined\<close>; the callers
  below raise the TypeError of the other two themselves. The names read are the fields
  of a task record and \<open>length\<close>.
\<close>

fun get_prop :: "jsval \<Rightarrow> string \<Rightarrow> jsval" where
  "get_prop (JObj kvs) name = (case map_of kvs name of Some v \<Rightarrow> v | None \<Rightarrow> JUndefined)"
| "get_prop (JStr s) name = (if name = ''length'' then JNum (int (length s)) else JUndefined)"
| "get_prop (JArr xs) name = (if name = ''length'' then JNum (int (length xs)) else JUndefined)"
| "get_prop v name = JUndefined"

text \<open>\<open>String(v)\<close>\<close>

fun to_string :: "runtime \<Rightarrow> jsval \<Rightarrow> string" where
  "to_string rt JUndefined = ''undefined''"
| "to_string rt JNull = ''null''"
| "to_string rt (JBool b) = (if b then ''true'' else ''false'')"
| "to_string rt (JNum n) = rt_num_string rt n"
| "to_string rt (JStr s) = s"
| "to_string rt (JDate d) = rt_date_string rt d"
| "to_string rt (JArr xs) =
     join (map (\<lambda>x. if x = JUndefined \<or> x = JNull then [] else to_string rt x) xs)"
| "to_string rt (JObj kvs) = ''[object Object]''"

text \<open>\<open>new Date(v)\<close>: the time value of the new date.\<close>

fun new_Date :: "runtime \<Rightarrow> jsval \<Rightarrow> int option" where
  "new_Date rt (JStr s) = rt_date_parse rt s"
| "new_Date rt (JDate d) = d"
| "new_Date rt (JNum n) = (if \<bar>n\<bar> \<le> 8640000000000000 then Some n else None)"
| "new_Date rt (JBool b) = Some (if b then 1 else 0)"
| "new_Date rt JNull = Some 0"
| "new_Date rt JUndefined = None"
| "new_Date rt v = rt_date_parse rt (to_string rt v)"

definition toISOString :: "runtime \<Rightarrow> int option \<Rightarrow> error + string" where
  "toISOString rt d = (case d of None \<Rightarrow> Inl RangeError | Some t \<Rightarrow> Inr (rt_to_iso rt t))"

text \<open>\<open>new Date()\<close>: the next reading of the clock.\<close>

definition now :: "runtime \<Rightarrow> (gen, int) M" where
  "now rt g = (Inr (rt_clock rt (clock_ctr g)), g\<lparr>clock_ctr := Suc (clock_ctr g)\<rparr>)"

section \<open>The Task class (src/task.js)\<close>

record subtask =
  sub_id :: jsval
  sub_title :: string
  completed :: bool

record task =
  task_id :: jsval
  title :: string
  description :: "string option"
  status :: string
  priority :: string
  dueDate :: "int option"
  tags :: "string list"
  subtasks :: "subtask list"
  createdAt :: "int option"
  updatedAt :: "int option"

definition VALID_STATUSES :: "string list" where
  "VALID_STATUSES = [''todo'', ''inprogress'', ''completed'']"

definition VALID_PRIORITIES :: "string list" where
  "VALID_PRIORITIES = [''high'', ''medium'', ''low'']"

definition generateUUID :: "runtime \<Rightarrow> (gen, jsval) M" where
  "generateUUID rt g = (Inr (JStr (rt_uuid rt (uuid_ctr g))), g\<lparr>uuid_ctr := Suc (uuid_ctr g)\<rparr>)"

definition validateTitle :: "jsval \<Rightarrow> error + string" where
  "validateTitle t =
     (case t of
        JStr s \<Rightarrow>
          if s = [] then Inl TitleRequired
          else let trimmedTitle = trim s
               in if length trimmedTitle = 0 then Inl TitleEmpty
                  else if length trimmedTitle > 100 then Inl TitleTooLong
                  else Inr trimmedTitle
      | _ \<Rightarrow> Inl TitleRequired)"

definition validateDescription :: "jsval \<Rightarrow> error + string option" where
  "validateDescription d =
     (if d = JUndefined \<or> d = JNull \<or> d = JStr [] then Inr None
      else case d of
        JStr s \<Rightarrow>
          let trimmedDescription = trim s
          in if length trimmedDescription = 0 then Inr None
             else if length trimmedDescription > 500 then Inl DescriptionTooLong
             else Inr (Some trimmedDescription)
      | _ \<Rightarrow> Inl DescriptionNotString)"

definition validateStatus :: "jsval \<Rightarrow> error + string" where
  "validateStatus s =
     (if s = JUndefined \<or> s = JNull \<or> s = JStr [] then Inr ''todo''
      else let normalizedStatus = (case s of JStr x \<Rightarrow> trim (toLowerCase x) | _ \<Rightarrow> [])
           in if normalizedStatus \<notin> set VALID_STATUSES then Inl (InvalidStatus s)
              else Inr normalizedStatus)"

definition validatePriority :: "jsval \<Rightarrow> error + string" where
  "validatePriority p =
     (if p = JUndefined \<or> p = JNull \<or> p = JStr [] then Inr ''medium''
      else let normalizedPriority = (case p of JStr x \<Rightarrow> trim (toLowerCase x) | _ \<Rightarrow> [])
           in if normalizedPriority \<notin> set VALID_PRIORITIES then Inl (InvalidPriority p)
              else Inr normalizedPriority)"

definition validateDueDate :: "runtime \<Rightarrow> jsval \<Rightarrow> error + int option" where
  "validateDueDate rt d =
     (if d = JUndefined \<or> d = JNull \<or> d = JStr [] then Inr None
      else case (case d of
                   JDate x \<Rightarrow> Inr x
                 | JStr s \<Rightarrow> Inr (new_Date rt (JStr s))
                 | _ \<Rightarrow> Inl DueDateType) of
             Inl e \<Rightarrow> Inl e
           | Inr None \<Rightarrow> Inl DueDateInvalid
           | Inr (Some t) \<Rightarrow> Inr (Some t))"

definition validateTags :: "runtime \<Rightarrow> jsval \<Rightarrow> error + string list" where
  "validateTags rt tgs =
     (if \<not> truthy tgs \<or> get_prop tgs ''length'' = JNum 0 then Inr []
      else case (case tgs of
                   JStr s \<Rightarrow> Inr (filter (\<lambda>tag. length tag > 0) (map trim (split s)))
                 | JArr xs \<Rightarrow>
                     Inr (filter (\<lambda>tag. length tag > 0)
                            (map (\<lambda>tag. case tag of JStr x \<Rightarrow> trim x
                                                   | _ \<Rightarrow> trim (to_string rt tag)) xs))
                 | _ \<Rightarrow> Inl TagsType) of
             Inl e \<Rightarrow> Inl e
           | Inr tagsArray0 \<Rightarrow>
               let tagsArray = unique tagsArray0
               in if \<exists>tag \<in> set tagsArray. length tag > 20 then Inl TagTooLong
                  else if length tagsArray > 10 then Inl TooManyTags
                  else Inr tagsArray)"

text \<open>
  One element of the \<open>map\<close> of \<open>validateSubtasks\<close>; \<open>index\<close> counts from 0 as in the
  source, the message names \<open>index + 1\<close>.
\<close>

definition validateSubtask :: "runtime \<Rightarrow> jsval \<Rightarrow> nat \<Rightarrow> (gen, subtask) M" where
  "validateSubtask rt st index =
     (case st of
        JStr s \<Rightarrow>
          bind (generateUUID rt) (\<lambda>u.
          ret \<lparr>sub_id = u, sub_title = trim s, completed = False\<rparr>)
      | _ \<Rightarrow>
          if is_object st \<and> st \<noteq> JNull then
            (case get_prop st ''title'' of
               JStr ttl \<Rightarrow>
                 if ttl = [] then throw (SubtaskNoTitle (index + 1))
                 else if length (trim ttl) = 0 then throw (SubtaskEmptyTitle (index + 1))
                 else if length ttl > 100 then throw (SubtaskTitleTooLong (index + 1))
                 else
                   bind (if truthy (get_prop st ''id'') then ret (get_prop st ''id'')
                         else generateUUID rt) (\<lambda>i.
                   ret \<lparr>sub_id = i, sub_title = trim ttl,
                        completed = truthy (get_prop st ''completed'')\<rparr>)
             | _ \<Rightarrow> throw (SubtaskNoTitle (index + 1)))
          else throw (SubtaskInvalidFormat (index + 1)))"

fun map_subtasks :: "runtime \<Rightarrow> jsval list \<Rightarrow> nat \<Rightarrow> (gen, subtask list) M" where
  "map_subtasks rt [] index = ret []"
| "map_subtasks rt (st # sts) index =
     bind (validateSubtask rt st index) (\<lambda>x.
     bind (map_subtasks rt sts (Suc index)) (\<lambda>xs.
     ret (x # xs)))"

definition validateSubtasks :: "runtime \<Rightarrow> jsval \<Rightarrow> (gen, subtask list) M" where
  "validateSubtasks rt sts =
     (case sts of
        JArr xs \<Rightarrow>
          bind (map_subtasks rt xs 0) (\<lambda>validatedSubtasks.
          if length validatedSubtasks > 20 then throw TooManySubtasks
          else ret validatedSubtasks)
      | _ \<Rightarrow> ret [])"

text \<open>
  The constructor. A missing argument is the empty record; reading \<open>title\<close> off
  \<open>null\<close> is the TypeError of the runtime.
\<close>

definition Task :: "runtime \<Rightarrow> jsval \<Rightarrow> (gen, task) M" where
  "Task rt taskData0 =
     (let taskData = (if taskData0 = JUndefined then JObj [] else taskData0)
      in if taskData = JNull then throw TypeError
         else if \<not> truthy (get_prop taskData ''title'') \<or> \<not> is_string (get_prop taskData ''title'')
         then throw TitleRequired
         else
           bind (if truthy (get_prop taskData ''id'') then ret (get_prop taskData ''id'')
                 else generateUUID rt) (\<lambda>i.
           bind (lift (validateTitle (get_prop taskData ''title''))) (\<lambda>ttl.
           bind (lift (validateDescription (get_prop taskData ''description''))) (\<lambda>dsc.
           bind (lift (validateStatus (get_prop taskData ''status''))) (\<lambda>sts.
           bind (lift (validatePriority (get_prop taskData ''priority''))) (\<lambda>pri.
           bind (lift (validateDueDate rt (get_prop taskData ''dueDate''))) (\<lambda>due.
           bind (lift (validateTags rt (get_prop taskData ''tags''))) (\<lambda>tgs.
           bind (validateSubtasks rt (get_prop taskData ''subtasks'')) (\<lambda>subs.
           bind (if truthy (get_prop taskData ''createdAt'')
                 then ret (new_Date rt (get_prop taskData ''createdAt''))
                 else bind (now rt) (\<lambda>t. ret (Some t))) (\<lambda>cre.
           bind (if truthy (get_prop taskData ''updatedAt'')
                 then ret (new_Date rt (get_prop taskData ''updatedAt''))
                 else bind (now rt) (\<lambda>t. ret (Some t))) (\<lambda>upd.
           ret \<lparr>task_id = i, title = ttl, description = dsc, status = sts, priority = pri,
                dueDate = due, tags = tgs, subtasks = subs,
                createdAt = cre, updatedAt = upd\<rparr>)))))))))))"

subsection \<open>Methods\<close>

text \<open>
  A method runs on the pair of its receiver and the generator state. An exception leaves
  the receiver as the statements before it made it.
\<close>

definition in_env :: "(gen, 'a) M \<Rightarrow> (task \<times> gen, 'a) M" where
  "in_env m s = (case m (snd s) of (r, g') \<Rightarrow> (r, (fst s, g')))"

definition this :: "(task \<times> gen, task) M" where
  "this s = (Inr (fst s), s)"

definition assign :: "(task \<Rightarrow> task) \<Rightarrow> (task \<times> gen, unit) M" where
  "assign f s = (Inr (), (f (fst s), snd s))"

text \<open>\<open>this.updatedAt = new Date()\<close>\<close>

definition touch :: "runtime \<Rightarrow> (task \<times> gen, unit) M" where
  "touch rt = bind (in_env (now rt)) (\<lambda>n. assign (\<lambda>t. t\<lparr>updatedAt := Some n\<rparr>))"

definition update :: "runtime \<Rightarrow> jsval \<Rightarrow> (task \<times> gen, unit) M" where
  "update rt updates0 =
     (let updates = (if updates0 = JUndefined then JObj [] else updates0)
      in if updates = JNull then throw TypeError
         else
           bind (if get_prop updates ''title'' \<noteq> JUndefined
                 then bind (lift (validateTitle (get_prop updates ''title'')))
                        (\<lambda>v. assign (\<lambda>t. t\<lparr>title := v\<rparr>))
                 else ret ()) (\<lambda>_.
           bind (if get_prop updates ''description'' \<noteq> JUndefined
                 then bind (lift (validateDescription (get_prop updates ''description'')))
                        (\<lambda>v. assign (\<lambda>t. t\<lparr>description := v\<rparr>))
                 else ret ()) (\<lambda>_.
           bind (if get_prop updates ''status'' \<noteq> JUndefined
                 then bind (lift (validateStatus (get_prop updates ''status'')))
                        (\<lambda>v. assign (\<lambda>t. t\<lparr>status := v\<rparr>))
                 else ret ()) (\<lambda>_.
           bind (if get_prop updates ''priority'' \<noteq> JUndefined
                 then bind (lift (validatePriority (get_prop updates ''priority'')))
                        (\<lambda>v. assign (\<lambda>t. t\<lparr>priority := v\<rparr>))
                 else ret ()) (\<lambda>_.
           bind (if get_prop updates ''dueDate'' \<noteq> JUndefined
                 then bind (lift (validateDueDate rt (get_prop updates ''dueDate'')))
                        (\<lambda>v. assign (\<lambda>t. t\<lparr>dueDate := v\<rparr>))
                 else ret ()) (\<lambda>_.
           bind (if get_prop updates ''tags'' \<noteq> JUndefined
                 then bind (lift (validateTags rt (get_prop updates ''tags'')))
                        (\<lambda>v. assign (\<lambda>t. t\<lparr>tags := v\<rparr>))
                 else ret ()) (\<lambda>_.
           bind (if get_prop updates ''subtasks'' \<noteq> JUndefined
                 then bind (in_env (validateSubtasks rt (get_prop updates ''subtasks'')))
                        (\<lambda>v. assign (\<lambda>t. t\<lparr>subtasks := v\<rparr>))
                 else ret ()) (\<lambda>_.
           touch rt))))))))"

definition addTag :: "runtime \<Rightarrow> jsval \<Rightarrow> (task \<times> gen, unit) M" where
  "addTag rt tag =
     (case tag of
        JStr s \<Rightarrow>
          if s = [] then throw AddTagNotString
          else let trimmedTag = trim s
               in if length trimmedTag = 0 then throw AddTagEmpty
                  else if length trimmedTag > 20 then throw AddTagTooLong
                  else bind this (\<lambda>t.
                       if trimmedTag \<in> set (tags t) then ret ()
                       else if length (tags t) \<ge> 10 then throw AddTagLimit
                       else bind (assign (\<lambda>t. t\<lparr>tags := tags t @ [trimmedTag]\<rparr>)) (\<lambda>_.
                            touch rt))
      | _ \<Rightarrow> throw AddTagNotString)"

definition removeTag :: "runtime \<Rightarrow> jsval \<Rightarrow> (task \<times> gen, unit) M" where
  "removeTag rt tag =
     bind this (\<lambda>t.
     case tag of
       JStr s \<Rightarrow>
         if s \<in> set (tags t)
         then bind (assign (\<lambda>t. t\<lparr>tags := remove1 s (tags t)\<rparr>)) (\<lambda>_. touch rt)
         else ret ()
     | _ \<Rightarrow> ret ())"

definition addSubtask :: "runtime \<Rightarrow> jsval \<Rightarrow> (task \<times> gen, unit) M" where
  "addSubtask rt ttl =
     (case ttl of
        JStr s \<Rightarrow>
          if s = [] then throw AddSubtaskNoTitle
          else let trimmedTitle = trim s
               in if length trimmedTitle = 0 then throw AddSubtaskEmpty
                  else if length trimmedTitle > 100 then throw AddSubtaskTooLong
                  else bind this (\<lambda>t.
                       if length (subtasks t) \<ge> 20 then throw AddSubtaskLimit
                       else bind (in_env (generateUUID rt)) (\<lambda>u.
                            bind (assign (\<lambda>t. t\<lparr>subtasks := subtasks t @
                                    [\<lparr>sub_id = u, sub_title = trimmedTitle, completed = False\<rparr>]\<rparr>))
                              (\<lambda>_. touch rt)))
      | _ \<Rightarrow> throw AddSubtaskNoTitle)"

text \<open>
  \<open>a === b\<close>. Primitive values are equal when they are the same value; two objects
  (arrays and dates included) are equal only when they are the same object, which the
  runtime decides.
\<close>

definition strict_eq :: "runtime \<Rightarrow> jsval \<Rightarrow> jsval \<Rightarrow> bool" where
  "strict_eq rt a b =
     (if is_object a \<and> a \<noteq> JNull
      then is_object b \<and> b \<noteq> JNull \<and> rt_same_object rt a b
      else a = b)"

fun remove_first :: "('a \<Rightarrow> bool) \<Rightarrow> 'a list \<Rightarrow> 'a list" where
  "remove_first P [] = []"
| "remove_first P (x # xs) = (if P x then xs else x # remove_first P xs)"

fun toggle_first :: "(subtask \<Rightarrow> bool) \<Rightarrow> subtask list \<Rightarrow> subtask list" where
  "toggle_first P [] = []"
| "toggle_first P (x # xs) =
     (if P x then x\<lparr>completed := \<not> completed x\<rparr> # xs else x # toggle_first P xs)"

definition removeSubtask :: "runtime \<Rightarrow> jsval \<Rightarrow> (task \<times> gen, unit) M" where
  "removeSubtask rt subtaskId =
     bind this (\<lambda>t.
     if \<exists>st \<in> set (subtasks t). strict_eq rt (sub_id st) subtaskId
     then bind (assign (\<lambda>t. t\<lparr>subtasks :=
                  remove_first (\<lambda>st. strict_eq rt (sub_id st) subtaskId) (subtasks t)\<rparr>))
            (\<lambda>_. touch rt)
     else ret ())"

definition toggleSubtask :: "runtime \<Rightarrow> jsval \<Rightarrow> (task \<times> gen, unit) M" where
  "toggleSubtask rt subtaskId =
     bind this (\<lambda>t.
     if \<exists>st \<in> set (subtasks t). strict_eq rt (sub_id st) subtaskId
     then bind (assign (\<lambda>t. t\<lparr>subtasks :=
                  toggle_first (\<lambda>st. strict_eq rt (sub_id st) subtaskId) (subtasks t)\<rparr>))
            (\<lambda>_. touch rt)
     else ret ())"

subsection \<open>Serialization\<close>

definition subtask_json :: "subtask \<Rightarrow> jsval" where
  "subtask_json st =
     JObj [(''id'', sub_id st), (''title'', JStr (sub_title st)),
           (''completed'', JBool (completed st))]"

definition toJSON :: "runtime \<Rightarrow> task \<Rightarrow> error + jsval" where
  "toJSON rt t =
     (case toISOString rt (createdAt t) of
        Inl e \<Rightarrow> Inl e
      | Inr c \<Rightarrow>
          (case toISOString rt (updatedAt t) of
             Inl e \<Rightarrow> Inl e
           | Inr u \<Rightarrow>
               Inr (JObj
                 [(''id'', task_id t),
                  (''title'', JStr (title t)),
                  (''description'', (case description t of None \<Rightarrow> JNull | Some d \<Rightarrow> JStr d)),
                  (''status'', JStr (status t)),
                  (''priority'', JStr (priority t)),
                  (''dueDate'', (case dueDate t of None \<Rightarrow> JNull
                                 | Some d \<Rightarrow> JStr (rt_to_iso rt d))),
                  (''tags'', JArr (map JStr (tags t))),
                  (''subtasks'', JArr (map subtask_json (subtasks t))),
                  (''createdAt'', JStr c),
                  (''updatedAt'', JStr u)])))"

definition fromJSON :: "runtime \<Rightarrow> jsval \<Rightarrow> (gen, task) M" where
  "fromJSON rt json = Task rt json"

section \<open>The storage manager (src/storage.js)\<close>

definition STORAGE_KEY :: string where
  "STORAGE_KEY = ''zenith_tasks''"

definition BACKUP_KEY :: string where
  "BACKUP_KEY = STORAGE_KEY @ ''_backup''"

subsection \<open>\<open>localStorage\<close>\<close>

text \<open>
  Every operation on the store is counted and may raise what the runtime says it raises;
  one that does not raise reads or updates the association list of the entries.
  \<open>getItem\<close> returns \<open>None\<close> for \<open>null\<close>.
\<close>

definition store_call :: "runtime \<Rightarrow> store_op \<Rightarrow> (world, unit) M" where
  "store_call rt op w =
     (case rt_fault rt (op_ctr w) (items w) op of
        Some e \<Rightarrow> (Inl e, w\<lparr>op_ctr := Suc (op_ctr w)\<rparr>)
      | None \<Rightarrow> (Inr (), w\<lparr>op_ctr := Suc (op_ctr w)\<rparr>))"

definition getItem :: "runtime \<Rightarrow> string \<Rightarrow> (world, string option) M" where
  "getItem rt k = bind (store_call rt (GetItem k)) (\<lambda>_ w. (Inr (map_of (items w) k), w))"

definition setItem :: "runtime \<Rightarrow> string \<Rightarrow> string \<Rightarrow> (world, unit) M" where
  "setItem rt k v =
     bind (store_call rt (SetItem k v)) (\<lambda>_ w. (Inr (), w\<lparr>items := AList.update k v (items w)\<rparr>))"

definition removeItem :: "runtime \<Rightarrow> string \<Rightarrow> (world, unit) M" where
  "removeItem rt k =
     bind (store_call rt (RemoveItem k)) (\<lambda>_ w. (Inr (), w\<lparr>items := AList.delete k (items w)\<rparr>))"

definition storeLength :: "runtime \<Rightarrow> (world, nat) M" where
  "storeLength rt = bind (store_call rt StoreLength) (\<lambda>_ w. (Inr (length (items w)), w))"

definition storeKey :: "runtime \<Rightarrow> nat \<Rightarrow> (world, string option) M" where
  "storeKey rt i =
     bind (store_call rt (StoreKey i))
       (\<lambda>_ w. (Inr (if i < length (items w) then Some (fst (items w ! i)) else None), w))"

text \<open>\<open>if (x)\<close> on what \<open>getItem\<close> returned: \<open>null\<close> and the empty string are falsy.\<close>

fun present :: "string option \<Rightarrow> bool" where
  "present None = False"
| "present (Some s) = (s \<noteq> [])"

subsection \<open>Helpers of the manager\<close>

definition isAvailable :: "runtime \<Rightarrow> (world, bool) M" where
  "isAvailable rt =
     try_catch
       (bind (setItem rt ''__zenith_storage_test__'' ''test'') (\<lambda>_.
        bind (removeItem rt ''__zenith_storage_test__'') (\<lambda>_.
        ret True)))
       (\<lambda>error. ret False)"

definition createBackup :: "runtime \<Rightarrow> (world, unit) M" where
  "createBackup rt =
     try_catch
       (bind (getItem rt STORAGE_KEY) (\<lambda>currentData.
        if present currentData then
          bind (setItem rt BACKUP_KEY (the currentData)) (\<lambda>_.
          bind (in_gen (now rt)) (\<lambda>n.
          setItem rt (STORAGE_KEY @ ''_backup_time'') (rt_to_iso rt n)))
        else ret ()))
       (\<lambda>error. ret ())"

definition restoreFromBackup :: "runtime \<Rightarrow> (world, bool) M" where
  "restoreFromBackup rt =
     try_catch
       (bind (getItem rt BACKUP_KEY) (\<lambda>backup.
        if present backup then
          bind (setItem rt STORAGE_KEY (the backup)) (\<lambda>_. ret True)
        else ret False))
       (\<lambda>error. ret False)"

definition JSON_parse :: "runtime \<Rightarrow> string \<Rightarrow> (world, jsval) M" where
  "JSON_parse rt text = (case rt_json_parse rt text of None \<Rightarrow> throw SyntaxError | Some v \<Rightarrow> ret v)"

definition recoverFromBackup :: "runtime \<Rightarrow> (world, bool) M" where
  "recoverFromBackup rt =
     bind (getItem rt BACKUP_KEY) (\<lambda>backup.
     if present backup then
       try_catch
         (bind (JSON_parse rt (the backup)) (\<lambda>_. restoreFromBackup rt))
         (\<lambda>error. ret False)
     else ret False)"

definition clearCorruptedData :: "runtime \<Rightarrow> string \<Rightarrow> (world, unit) M" where
  "clearCorruptedData rt corruptedData =
     bind (in_gen (now rt)) (\<lambda>n.
     let timestamp = map (\<lambda>c. if c = CHR '':'' \<or> c = CHR ''.'' then CHR ''-'' else c)
                       (rt_to_iso rt n)
     in bind (try_catch (setItem rt (STORAGE_KEY @ ''_corrupted_'' @ timestamp) corruptedData)
                (\<lambda>error. ret ())) (\<lambda>_.
        removeItem rt STORAGE_KEY))"

subsection \<open>Calls that may not return\<close>

text \<open>
  \<open>loadTasks\<close> calls itself, and \<open>saveTasks\<close> and \<open>handleQuotaExceeded\<close> call each
  other. Their models take the number of nested calls they may make; \<open>None\<close> is a call
  that needs more. A \<open>catch\<close> does not catch it.
\<close>

type_synonym ('s, 'a) MF = "'s \<Rightarrow> ((error + 'a) \<times> 's) option"

definition retF :: "'a \<Rightarrow> ('s, 'a) MF" where
  "retF x s = Some (Inr x, s)"

definition throwF :: "error \<Rightarrow> ('s, 'a) MF" where
  "throwF e s = Some (Inl e, s)"

definition total :: "('s, 'a) M \<Rightarrow> ('s, 'a) MF" where
  "total m s = Some (m s)"

definition bindF :: "('s, 'a) MF \<Rightarrow> ('a \<Rightarrow> ('s, 'b) MF) \<Rightarrow> ('s, 'b) MF" where
  "bindF m f s =
     (case m s of
        None \<Rightarrow> None
      | Some (Inl e, s') \<Rightarrow> Some (Inl e, s')
      | Some (Inr x, s') \<Rightarrow> f x s')"

definition try_catchF :: "('s, 'a) MF \<Rightarrow> (error \<Rightarrow> ('s, 'a) MF) \<Rightarrow> ('s, 'a) MF" where
  "try_catchF m h s =
     (case m s of
        None \<Rightarrow> None
      | Some (Inl e, s') \<Rightarrow> h e s'
      | Some (Inr x, s') \<Rightarrow> Some (Inr x, s'))"

subsection \<open>\<open>loadTasks\<close>\<close>

text \<open>
  The \<open>forEach\<close> of \<open>loadTasks\<close>, with the two arrays it pushes to.
\<close>

fun forEach_load ::
  "runtime \<Rightarrow> jsval list \<Rightarrow> nat \<Rightarrow> task list \<times> (nat \<times> jsval \<times> error) list
     \<Rightarrow> (world, task list \<times> (nat \<times> jsval \<times> error) list) M" where
  "forEach_load rt [] index acc = ret acc"
| "forEach_load rt (taskData # rest) index acc =
     bind (try_catch
             (bind (in_gen (fromJSON rt taskData)) (\<lambda>task. ret (fst acc @ [task], snd acc)))
             (\<lambda>error. ret (fst acc, snd acc @ [(index, taskData, error)])))
       (\<lambda>acc'. forEach_load rt rest (Suc index) acc')"

fun loadTasks :: "runtime \<Rightarrow> nat \<Rightarrow> (world, task list) MF" where
  "loadTasks rt 0 = (\<lambda>w. None)"
| "loadTasks rt (Suc n) =
     try_catchF
       (bindF (total (isAvailable rt)) (\<lambda>available.
        if \<not> available then retF []
        else
          bindF (total (getItem rt STORAGE_KEY)) (\<lambda>rawData.
          if \<not> present rawData then retF []
          else
            (case rt_json_parse rt (the rawData) of
               None \<Rightarrow>
                 bindF (total (recoverFromBackup rt)) (\<lambda>recovered.
                 if recovered then loadTasks rt n
                 else bindF (total (clearCorruptedData rt (the rawData))) (\<lambda>_. retF []))
             | Some parsedData \<Rightarrow>
                 (case parsedData of
                    JArr xs \<Rightarrow>
                      bindF (total (forEach_load rt xs 0 ([], []))) (\<lambda>r.
                      bindF (total (if length (snd r) > 0 then log (LogSkipped (length (snd r)))
                                    else ret ())) (\<lambda>_.
                      bindF (total (log (LogLoaded (length (fst r))))) (\<lambda>_.
                      retF (fst r))))
                  | _ \<Rightarrow>
                      bindF (total (clearCorruptedData rt (the rawData))) (\<lambda>_. retF []))))))
       (\<lambda>error. bindF (total (log (LogUnexpected error))) (\<lambda>_. retF []))"

subsection \<open>\<open>saveTasks\<close>\<close>

text \<open>
  What \<open>saveTasks\<close> may be handed: an array whose elements are Task instances or other
  values, or something that is not an array.
\<close>

datatype item = Inst task | Other jsval

datatype save_arg = Arr "item list" | NotArr jsval

fun map_toJSON :: "runtime \<Rightarrow> item list \<Rightarrow> error + jsval list" where
  "map_toJSON rt [] = Inr []"
| "map_toJSON rt (Other v # rest) = Inl TypeError"
| "map_toJSON rt (Inst t # rest) =
     (case toJSON rt t of
        Inl e \<Rightarrow> Inl e
      | Inr j \<Rightarrow> (case map_toJSON rt rest of Inl e \<Rightarrow> Inl e | Inr js \<Rightarrow> Inr (j # js)))"

definition starts_with :: "string \<Rightarrow> string \<Rightarrow> bool" where
  "starts_with p s = (take (length p) s = p)"

definition stale_key :: "string option \<Rightarrow> bool" where
  "stale_key key =
     (present key \<and>
      (starts_with (STORAGE_KEY @ ''_corrupted_'') (the key) \<or>
       starts_with (STORAGE_KEY @ ''_backup'') (the key)))"

text \<open>The \<open>for\<close> loop of \<open>handleQuotaExceeded\<close> over the indices of the store.\<close>

function scan_keys :: "runtime \<Rightarrow> nat \<Rightarrow> string list \<Rightarrow> (world, string list) M" where
  "scan_keys rt i keysToRemove w =
     (case storeLength rt w of
        (Inl e, w1) \<Rightarrow> (Inl e, w1)
      | (Inr len, w1) \<Rightarrow>
          if i < len then
            (case storeKey rt i w1 of
               (Inl e, w2) \<Rightarrow> (Inl e, w2)
             | (Inr key, w2) \<Rightarrow>
                 scan_keys rt (Suc i)
                   (if stale_key key then keysToRemove @ [the key] else keysToRemove) w2)
          else (Inr keysToRemove, w1))"
  by pat_completeness auto
termination
  by (relation "measure (\<lambda>(rt, i, ks, w). length (items w) - i)")
     (auto simp: storeLength_def storeKey_def store_call_def bind_def
           split: option.splits sum.splits prod.splits)

declare scan_keys.simps [simp del]

fun remove_keys :: "runtime \<Rightarrow> string list \<Rightarrow> (world, unit) M" where
  "remove_keys rt [] = ret ()"
| "remove_keys rt (key # rest) = bind (removeItem rt key) (\<lambda>_. remove_keys rt rest)"

text \<open>
  \<open>handleQuotaExceeded\<close> takes the call \<open>this.saveTasks(tasks)\<close> it retries with. Inside
  the \<open>try\<close>, \<open>Some b\<close> is \<open>return b\<close> and \<open>None\<close> falls through to the final
  \<open>return false\<close>.
\<close>

definition handleQuotaExceeded :: "runtime \<Rightarrow> (world, bool) MF \<Rightarrow> (world, bool) MF" where
  "handleQuotaExceeded rt retry =
     bindF (try_catchF
              (bindF (total (scan_keys rt 0 [])) (\<lambda>keysToRemove.
               bindF (total (remove_keys rt keysToRemove)) (\<lambda>_.
               if length keysToRemove > 0 then bindF retry (\<lambda>b. retF (Some b))
               else retF None)))
              (\<lambda>error. retF None))
       (\<lambda>r. case r of Some b \<Rightarrow> retF b | None \<Rightarrow> retF False)"

fun saveTasks :: "runtime \<Rightarrow> nat \<Rightarrow> save_arg \<Rightarrow> (world, bool) MF" where
  "saveTasks rt 0 tasks = (\<lambda>w. None)"
| "saveTasks rt (Suc n) tasks =
     try_catchF
       (case tasks of
          NotArr v \<Rightarrow> throwF TypeError
        | Arr xs \<Rightarrow>
            bindF (total (isAvailable rt)) (\<lambda>available.
            if \<not> available then retF False
            else
              bindF (total (lift (map_toJSON rt xs))) (\<lambda>validatedTasks.
              bindF (total (createBackup rt)) (\<lambda>_.
              let jsonString = rt_json_stringify rt (JArr validatedTasks)
              in bindF (try_catchF
                          (bindF (total (setItem rt STORAGE_KEY jsonString)) (\<lambda>_.
                           bindF (total (in_gen (now rt))) (\<lambda>n.
                           bindF (total (setItem rt (STORAGE_KEY @ ''_last_save'')
                                           (rt_to_iso rt n))) (\<lambda>_.
                           retF None))))
                          (\<lambda>storageError.
                             if storageError = QuotaExceededError then
                               bindF (handleQuotaExceeded rt (saveTasks rt n tasks)) (\<lambda>_.
                               retF (Some False))
                             else throwF storageError))
                   (\<lambda>r. case r of Some b \<Rightarrow> retF b | None \<Rightarrow> retF True)))))
       (\<lambda>error. bindF (total (restoreFromBackup rt)) (\<lambda>_. retF False))"

section \<open>Notions the properties are stated with\<close>

subsection \<open>What a failed \<open>update\<close> leaves behind\<close>

text \<open>
  \<open>update\<close> touches the fields its argument has. \<open>new_value u f validate old\<close> is what
  the statement for field \<open>f\<close> computes: the validated entry of \<open>u\<close>, the error of its
  validator, or the current value \<open>old\<close> of a field that is not touched.
\<close>

definition touched :: "jsval \<Rightarrow> string \<Rightarrow> bool" where
  "touched u f = (get_prop u f \<noteq> JUndefined)"

definition new_value :: "jsval \<Rightarrow> string \<Rightarrow> (jsval \<Rightarrow> error + 'a) \<Rightarrow> 'a \<Rightarrow> error + 'a" where
  "new_value u f validate old = (if touched u f then validate (get_prop u f) else Inr old)"

definition keep :: "error + 'a \<Rightarrow> 'a \<Rightarrow> 'a" where
  "keep r old = (case r of Inr v \<Rightarrow> v | Inl e \<Rightarrow> old)"

subsection \<open>Normalized enumeration values\<close>

text \<open>
  A status or priority string is accepted when it is empty or when its lowercased, trimmed
  form is one of the values; what is stored is the default for the empty string and that
  form otherwise.
\<close>

definition accepted :: "string list \<Rightarrow> string \<Rightarrow> bool" where
  "accepted enum s = (s = [] \<or> trim (toLowerCase s) \<in> set enum)"

definition stored :: "string \<Rightarrow> string \<Rightarrow> string" where
  "stored dflt s = (if s = [] then dflt else trim (toLowerCase s))"

subsection \<open>The life of a task\<close>

datatype mutation =
    Update jsval
  | AddTag jsval
  | RemoveTag jsval
  | AddSubtask jsval
  | RemoveSubtask jsval
  | ToggleSubtask jsval

fun apply_mutation :: "runtime \<Rightarrow> mutation \<Rightarrow> (task \<times> gen, unit) M" where
  "apply_mutation rt (Update u) = update rt u"
| "apply_mutation rt (AddTag v) = addTag rt v"
| "apply_mutation rt (RemoveTag v) = removeTag rt v"
| "apply_mutation rt (AddSubtask v) = addSubtask rt v"
| "apply_mutation rt (RemoveSubtask v) = removeSubtask rt v"
| "apply_mutation rt (ToggleSubtask v) = toggleSubtask rt v"

text \<open>
  The task after a sequence of method calls, each of which may succeed or throw (the
  caller catches and goes on).
\<close>

fun run_mutations :: "runtime \<Rightarrow> mutation list \<Rightarrow> task \<times> gen \<Rightarrow> task \<times> gen" where
  "run_mutations rt [] s = s"
| "run_mutations rt (m # ms) s = run_mutations rt ms (snd (apply_mutation rt m s))"

definition timestamps_ordered :: "task \<Rightarrow> bool" where
  "timestamps_ordered t =
     (case (createdAt t, updatedAt t) of (Some c, Some u) \<Rightarrow> c \<le> u | _ \<Rightarrow> False)"

text \<open>The creation time is not ahead of the next reading of the clock.\<close>

definition created_in_past :: "runtime \<Rightarrow> task \<times> gen \<Rightarrow> bool" where
  "created_in_past rt s =
     (case createdAt (fst s) of
        Some c \<Rightarrow> c \<le> rt_clock rt (clock_ctr (snd s))
      | None \<Rightarrow> False)"

text \<open>
  What a method call does to the timestamps: it never assigns createdAt, and either leaves
  updatedAt and the clock alone or takes one reading of the clock and stores it in
  updatedAt.
\<close>

definition stamp_step :: "runtime \<Rightarrow> task \<times> gen \<Rightarrow> task \<times> gen \<Rightarrow> bool" where
  "stamp_step rt s s' =
     (createdAt (fst s') = createdAt (fst s) \<and>
      ((updatedAt (fst s') = updatedAt (fst s) \<and> clock_ctr (snd s') = clock_ctr (snd s)) \<or>
       (updatedAt (fst s') = Some (rt_clock rt (clock_ctr (snd s))) \<and>
        clock_ctr (snd s') = Suc (clock_ctr (snd s)))))"

subsection \<open>Valid tasks\<close>

text \<open>
  The invariants of the data model, in the form the validators establish them: strings
  are stored trimmed, identifiers are truthy, and the dates are instants that the
  runtime prints as a non-empty text which its parser reads back.
\<close>

definition valid_date :: "runtime \<Rightarrow> int \<Rightarrow> bool" where
  "valid_date rt d = (rt_to_iso rt d \<noteq> [] \<and> rt_date_parse rt (rt_to_iso rt d) = Some d)"

definition valid_subtask :: "subtask \<Rightarrow> bool" where
  "valid_subtask st =
     (truthy (sub_id st) \<and> trim (sub_title st) = sub_title st \<and>
      1 \<le> length (sub_title st) \<and> length (sub_title st) \<le> 100)"

definition valid_task :: "runtime \<Rightarrow> task \<Rightarrow> bool" where
  "valid_task rt t =
     (truthy (task_id t) \<and>
      trim (title t) = title t \<and> 1 \<le> length (title t) \<and> length (title t) \<le> 100 \<and>
      (case description t of
         None \<Rightarrow> True
       | Some d \<Rightarrow> trim d = d \<and> 1 \<le> length d \<and> length d \<le> 500) \<and>
      status t \<in> set VALID_STATUSES \<and>
      priority t \<in> set VALID_PRIORITIES \<and>
      (case dueDate t of None \<Rightarrow> True | Some d \<Rightarrow> valid_date rt d) \<and>
      length (tags t) \<le> 10 \<and> distinct (tags t) \<and>
      (\<forall>tag \<in> set (tags t). trim tag = tag \<and> 1 \<le> length tag \<and> length tag \<le> 20) \<and>
      length (subtasks t) \<le> 20 \<and>
      (\<forall>st \<in> set (subtasks t). valid_subtask st) \<and>
      (case createdAt t of None \<Rightarrow> False | Some c \<Rightarrow> valid_date rt c) \<and>
      (case updatedAt t of None \<Rightarrow> False | Some u \<Rightarrow> valid_date rt u))"

subsection \<open>Loading, as the specification words it\<close>

text \<open>
  Each element of the stored sequence is passed through \<open>fromJSON\<close> on its own; one
  that fails is skipped and counted. \<open>spec_load rt rs g\<close> is the list of the tasks
  reconstructed and the number of elements skipped.
\<close>

fun spec_load :: "runtime \<Rightarrow> jsval list \<Rightarrow> gen \<Rightarrow> task list \<times> nat" where
  "spec_load rt [] g = ([], 0)"
| "spec_load rt (r # rs) g =
     (case fromJSON rt r g of
        (Inr t, g') \<Rightarrow> (case spec_load rt rs g' of (ts, k) \<Rightarrow> (t # ts, k))
      | (Inl e, g') \<Rightarrow> (case spec_load rt rs g' of (ts, k) \<Rightarrow> (ts, Suc k)))"

text \<open>A store none of whose operations raises.\<close>

definition reliable :: "runtime \<Rightarrow> bool" where
  "reliable rt = (rt_fault rt = (\<lambda>n its op. None))"

subsection \<open>Tasks that come from the constructor\<close>

definition constructed :: "runtime \<Rightarrow> task \<Rightarrow> bool" where
  "constructed rt t = (\<exists>r g g'. fromJSON rt r g = (Inr t, g'))"

subsection \<open>Names of two keys\<close>

text \<open>The key of the backup's time stamp and the key of the availability probe.\<close>

definition BACKUP_TIME_KEY :: string where
  "BACKUP_TIME_KEY = STORAGE_KEY @ ''_backup_time''"

definition TEST_KEY :: string where
  "TEST_KEY = ''__zenith_storage_test__''"

section \<open>A concrete runtime\<close>

text \<open>
  The examples run on a runtime whose identifiers are \<open>id-0\<close>, \<open>id-1\<close>, ..., whose
  clock starts one second after the epoch and advances by a millisecond with every
  reading, whose \<open>Date\<close> knows the instants of \<open>known_instants\<close>, and whose JSON
  printer is \<open>encode\<close>; its parser reads back the texts of \<open>known_texts\<close>. Its store
  never fails, and two objects are the same object when they are equal values.
\<close>

fun dec :: "nat \<Rightarrow> string" where
  "dec n = (if n < 10 then [char_of (48 + n)] else dec (n div 10) @ [char_of (48 + n mod 10)])"

definition show_int :: "int \<Rightarrow> string" where
  "show_int i = (if i < 0 then CHR ''-'' # dec (nat (- i)) else dec (nat i))"

definition known_instants :: "(int \<times> string) list" where
  "known_instants =
     [(1000, ''1970-01-01T00:00:01.000Z''),
      (1001, ''1970-01-01T00:00:01.001Z''),
      (1002, ''1970-01-01T00:00:01.002Z''),
      (2000, ''1970-01-01T00:00:02.000Z''),
      (3000, ''1970-01-01T00:00:03.000Z'')]"

definition demo_to_iso :: "int \<Rightarrow> string" where
  "demo_to_iso t =
     (case map_of known_instants t of Some s \<Rightarrow> s | None \<Rightarrow> ''1970-01-01T00:00:00.000Z'')"

definition demo_date_parse :: "string \<Rightarrow> int option" where
  "demo_date_parse s = map_of (map (\<lambda>p. (snd p, fst p)) known_instants) s"

definition quote :: "string \<Rightarrow> string" where
  "quote s =
     [CHR 0x22] @
     concat (map (\<lambda>c. if c = CHR 0x22 \<or> c = CHR 0x5C then [CHR 0x5C, c] else [c]) s) @
     [CHR 0x22]"

fun encode :: "jsval \<Rightarrow> string" where
  "encode JUndefined = ''null''"
| "encode JNull = ''null''"
| "encode (JBool b) = (if b then ''true'' else ''false'')"
| "encode (JNum n) = show_int n"
| "encode (JStr s) = quote s"
| "encode (JDate d) = (case d of None \<Rightarrow> ''null'' | Some t \<Rightarrow> quote (demo_to_iso t))"
| "encode (JArr xs) = ''['' @ join (map encode xs) @ '']''"
| "encode (JObj kvs) =
     ''{'' @ join (map (\<lambda>kv. quote (fst kv) @ '':'' @ encode (snd kv))
                     (filter (\<lambda>kv. snd kv \<noteq> JUndefined) kvs)) @ ''}''"

definition record1 :: jsval where
  "record1 =
     JObj [(''id'', JStr ''t-1''), (''title'', JStr ''Write report''),
           (''description'', JNull), (''status'', JStr ''inprogress''),
           (''priority'', JStr ''high''), (''dueDate'', JStr ''1970-01-01T00:00:03.000Z''),
           (''tags'', JArr [JStr ''work'']),
           (''subtasks'', JArr [JObj [(''id'', JStr ''s-1''), (''title'', JStr ''Outline''),
                                       (''completed'', JBool True)]]),
           (''createdAt'', JStr ''1970-01-01T00:00:01.000Z''),
           (''updatedAt'', JStr ''1970-01-01T00:00:02.000Z'')]"

definition record2 :: jsval where
  "record2 =
     JObj [(''id'', JStr ''t-2''), (''title'', JStr ''Buy milk''),
           (''description'', JNull), (''status'', JStr ''done''),
           (''priority'', JStr ''low''), (''dueDate'', JNull),
           (''tags'', JArr []), (''subtasks'', JArr []),
           (''createdAt'', JStr ''1970-01-01T00:00:01.000Z''),
           (''updatedAt'', JStr ''1970-01-01T00:00:01.000Z'')]"

definition record3 :: jsval where
  "record3 =
     JObj [(''id'', JStr ''t-3''), (''title'', JStr ''Call Ana''),
           (''description'', JStr ''about the trip''), (''status'', JStr ''todo''),
           (''priority'', JStr ''medium''), (''dueDate'', JNull),
           (''tags'', JArr []), (''subtasks'', JArr []),
           (''createdAt'', JStr ''1970-01-01T00:00:02.000Z''),
           (''updatedAt'', JStr ''1970-01-01T00:00:03.000Z'')]"

definition task1 :: task where
  "task1 =
     \<lparr>task_id = JStr ''t-1'', title = ''Write report'', description = None,
      status = ''inprogress'', priority = ''high'', dueDate = Some 3000, tags = [''work''],
      subtasks = [\<lparr>sub_id = JStr ''s-1'', sub_title = ''Outline'', completed = True\<rparr>],
      createdAt = Some 1000, updatedAt = Some 2000\<rparr>"

definition task3 :: task where
  "task3 =
     \<lparr>task_id = JStr ''t-3'', title = ''Call Ana'', description = Some ''about the trip'',
      status = ''todo'', priority = ''medium'', dueDate = None, tags = [],
      subtasks = [], createdAt = Some 2000, updatedAt = Some 3000\<rparr>"

text \<open>
  The task that \<open>new Task({title: 'Pay rent', createdAt: 'yesterday'})\<close> constructs:
  the runtime does not read the text as a date, so createdAt is the invalid date.
\<close>

definition task_undated :: task where
  "task_undated =
     \<lparr>task_id = JStr ''id-0'', title = ''Pay rent'', description = None,
      status = ''todo'', priority = ''medium'', dueDate = None, tags = [],
      subtasks = [], createdAt = None, updatedAt = Some 1000\<rparr>"

definition known_texts :: "(string \<times> jsval) list" where
  "known_texts =
     [(''[]'', JArr []),
      (encode (JArr [record1, record3]), JArr [record1, record3]),
      (encode (JArr [record1, record2, record3]), JArr [record1, record2, record3])]"

definition rt0 :: runtime where
  "rt0 =
     \<lparr>rt_uuid = (\<lambda>n. ''id-'' @ dec n),
      rt_clock = (\<lambda>n. 1000 + int n),
      rt_date_parse = demo_date_parse,
      rt_to_iso = demo_to_iso,
      rt_date_string = (\<lambda>d. case d of None \<Rightarrow> ''Invalid Date'' | Some t \<Rightarrow> demo_to_iso t),
      rt_num_string = show_int,
      rt_json_parse = map_of known_texts,
      rt_json_stringify = encode,
      rt_fault = (\<lambda>n its op. None),
      rt_same_object = (\<lambda>a b. a = b)\<rparr>"

definition g0 :: gen where
  "g0 = \<lparr>uuid_ctr = 0, clock_ctr = 0\<rparr>"

definition world0 :: "(string \<times> string) list \<Rightarrow> world" where
  "world0 its = \<lparr>gen = g0, items = its, op_ctr = 0, console = []\<rparr>"

text \<open>
  A store with room for \<open>cap\<close> characters, keys and values counted: a write that would
  take the contents beyond it raises QuotaExceededError, and nothing else fails.
\<close>

definition store_size :: "(string \<times> string) list \<Rightarrow> nat" where
  "store_size its = sum_list (map (\<lambda>kv. length (fst kv) + length (snd kv)) its)"

definition quota_fault :: "nat \<Rightarrow> nat \<Rightarrow> (string \<times> string) list \<Rightarrow> store_op \<Rightarrow> error option" where
  "quota_fault cap n its op =
     (case op of
        SetItem k v \<Rightarrow>
          if store_size (AList.update k v its) > cap then Some QuotaExceededError else None
      | _ \<Rightarrow> None)"

definition rt_small :: runtime where
  "rt_small = rt0\<lparr>rt_fault := quota_fault 350\<rparr>"

section \<open>Basic facts\<close>

lemmas monad_defs = bind_def ret_def lift_def throw_def try_catch_def

lemma trim_Nil [simp]: "trim [] = []"
  by (simp add: trim_def)

lemma foldl_set_insert: "distinct (acc @ xs) \<Longrightarrow> foldl set_insert acc xs = acc @ xs"
  by (induction xs arbitrary: acc) (auto simp: set_insert_def)

lemma unique_distinct: "distinct xs \<Longrightarrow> unique xs = xs"
  using foldl_set_insert[of "[]" xs] by (simp add: unique_def)

lemma bind_ret [simp]: "bind (ret x) f s = f x s"
  by (simp add: bind_def ret_def)

lemma bind_throw [simp]: "bind (throw e) f s = (Inl e, s)"
  by (simp add: bind_def throw_def)

lemma bind_lift_Inr [simp]: "bind (lift (Inr v)) f s = f v s"
  by (simp add: bind_def lift_def)

lemma bind_lift_Inl [simp]: "bind (lift (Inl e)) f s = (Inl e, s)"
  by (simp add: bind_def lift_def)

lemma bind_assoc [simp]: "bind (bind m f) k s = bind m (\<lambda>x. bind (f x) k) s"
  by (simp add: bind_def split: prod.splits sum.splits)

lemma bind_generateUUID [simp]:
  "bind (generateUUID rt) f g = f (JStr (rt_uuid rt (uuid_ctr g))) (g\<lparr>uuid_ctr := Suc (uuid_ctr g)\<rparr>)"
  by (simp add: bind_def generateUUID_def)

lemma bind_now [simp]:
  "bind (now rt) f g = f (rt_clock rt (clock_ctr g)) (g\<lparr>clock_ctr := Suc (clock_ctr g)\<rparr>)"
  by (simp add: bind_def now_def)

lemma bind_this [simp]: "bind this f s = f (fst s) s"
  by (simp add: bind_def this_def)

lemma bind_assign [simp]: "bind (assign h) f s = f () (h (fst s), snd s)"
  by (simp add: bind_def assign_def)

lemma bind_in_env_now [simp]:
  "bind (in_env (now rt)) f s =
     f (rt_clock rt (clock_ctr (snd s))) (fst s, (snd s)\<lparr>clock_ctr := Suc (clock_ctr (snd s))\<rparr>)"
  by (simp add: bind_def in_env_def now_def)

lemma bind_in_env_generateUUID [simp]:
  "bind (in_env (generateUUID rt)) f s =
     f (JStr (rt_uuid rt (uuid_ctr (snd s)))) (fst s, (snd s)\<lparr>uuid_ctr := Suc (uuid_ctr (snd s))\<rparr>)"
  by (simp add: bind_def in_env_def generateUUID_def)

lemma touch_eq [simp]:
  "touch rt s = (Inr (), ((fst s)\<lparr>updatedAt := Some (rt_clock rt (clock_ctr (snd s)))\<rparr>,
                          (snd s)\<lparr>clock_ctr := Suc (clock_ctr (snd s))\<rparr>))"
  by (simp add: touch_def assign_def)

section \<open>Serialization round trip\<close>

lemma validateTitle_roundtrip:
  "trim s = s \<Longrightarrow> 1 \<le> length s \<Longrightarrow> length s \<le> 100 \<Longrightarrow> validateTitle (JStr s) = Inr s"
  by (auto simp: validateTitle_def Let_def)

lemma validateDescription_roundtrip:
  "(case d of None \<Rightarrow> True | Some x \<Rightarrow> trim x = x \<and> 1 \<le> length x \<and> length x \<le> 500) \<Longrightarrow>
   validateDescription (case d of None \<Rightarrow> JNull | Some x \<Rightarrow> JStr x) = Inr d"
  by (cases d) (auto simp: validateDescription_def Let_def)

lemma validateStatus_valid:
  "s \<in> set VALID_STATUSES \<Longrightarrow> validateStatus (JStr s) = Inr s"
  by (auto simp: validateStatus_def VALID_STATUSES_def Let_def trim_def toLowerCase_def
        lower_char_def is_space_def)

lemma validatePriority_valid:
  "s \<in> set VALID_PRIORITIES \<Longrightarrow> validatePriority (JStr s) = Inr s"
  by (auto simp: validatePriority_def VALID_PRIORITIES_def Let_def trim_def toLowerCase_def
        lower_char_def is_space_def)

lemma validateDueDate_roundtrip:
  "(case d of None \<Rightarrow> True | Some x \<Rightarrow> valid_date rt x) \<Longrightarrow>
   validateDueDate rt (case d of None \<Rightarrow> JNull | Some x \<Rightarrow> JStr (rt_to_iso rt x)) = Inr d"
  by (cases d) (auto simp: validateDueDate_def valid_date_def)

lemma validateTags_roundtrip:
  assumes "length tgs \<le> 10" "distinct tgs"
    "\<forall>tag \<in> set tgs. trim tag = tag \<and> 1 \<le> length tag \<and> length tag \<le> 20"
  shows "validateTags rt (JArr (map JStr tgs)) = Inr tgs"
proof (cases "tgs = []")
  case True
  then show ?thesis by (simp add: validateTags_def)
next
  case False
  have m: "map ((\<lambda>tag. case tag of JStr x \<Rightarrow> trim x | _ \<Rightarrow> trim (to_string rt tag)) \<circ> JStr) tgs
             = tgs"
    using assms(3) by (induction tgs) auto
  have f: "filter (\<lambda>tag. tag \<noteq> []) tgs = tgs"
    using assms(3) by (auto simp: filter_id_conv)
  show ?thesis using False assms
    by (auto simp add: validateTags_def m f unique_distinct Let_def)
qed

lemma map_subtasks_roundtrip:
  "\<forall>st \<in> set subs. valid_subtask st \<Longrightarrow>
   map_subtasks rt (map subtask_json subs) i g = (Inr subs, g)"
proof (induction subs arbitrary: i)
  case Nil
  then show ?case by (simp add: ret_def)
next
  case (Cons st subs)
  then have v: "valid_subtask st" and rest: "\<forall>x \<in> set subs. valid_subtask x" by auto
  from v have t: "sub_title st \<noteq> []" "trim (sub_title st) = sub_title st"
    "length (sub_title st) \<le> 100" "truthy (sub_id st)"
    by (auto simp: valid_subtask_def)
  have one: "validateSubtask rt (subtask_json st) i g = (Inr st, g)"
    using t by (simp add: validateSubtask_def subtask_json_def monad_defs)
  show ?case using Cons.IH[OF rest] one by (simp add: monad_defs)
qed

lemma validateSubtasks_roundtrip:
  "length subs \<le> 20 \<Longrightarrow> \<forall>st \<in> set subs. valid_subtask st \<Longrightarrow>
   validateSubtasks rt (JArr (map subtask_json subs)) g = (Inr subs, g)"
  by (simp add: validateSubtasks_def map_subtasks_roundtrip monad_defs)

lemma fromJSON_toJSON_valid:
  assumes "valid_task rt t"
  shows "\<exists>j. toJSON rt t = Inr j \<and> fromJSON rt j g = (Inr t, g)"
proof -
  obtain c u where cu: "createdAt t = Some c" "updatedAt t = Some u"
    "valid_date rt c" "valid_date rt u"
    using assms by (auto simp: valid_task_def split: option.splits)
  let ?j = "JObj
              [(''id'', task_id t),
               (''title'', JStr (title t)),
               (''description'', (case description t of None \<Rightarrow> JNull | Some d \<Rightarrow> JStr d)),
               (''status'', JStr (status t)),
               (''priority'', JStr (priority t)),
               (''dueDate'', (case dueDate t of None \<Rightarrow> JNull
                              | Some d \<Rightarrow> JStr (rt_to_iso rt d))),
               (''tags'', JArr (map JStr (tags t))),
               (''subtasks'', JArr (map subtask_json (subtasks t))),
               (''createdAt'', JStr (rt_to_iso rt c)),
               (''updatedAt'', JStr (rt_to_iso rt u))]"
  have j: "toJSON rt t = Inr ?j"
    by (simp add: toJSON_def toISOString_def cu)
  have ttl: "validateTitle (JStr (title t)) = Inr (title t)" "title t \<noteq> []"
    using assms by (auto simp: valid_task_def intro!: validateTitle_roundtrip)
  have dsc: "validateDescription (case description t of None \<Rightarrow> JNull | Some d \<Rightarrow> JStr d)
               = Inr (description t)"
    using assms by (intro validateDescription_roundtrip) (simp add: valid_task_def)
  have sts: "validateStatus (JStr (status t)) = Inr (status t)"
    using assms by (simp add: valid_task_def validateStatus_valid)
  have pri: "validatePriority (JStr (priority t)) = Inr (priority t)"
    using assms by (simp add: valid_task_def validatePriority_valid)
  have due: "validateDueDate rt (case dueDate t of None \<Rightarrow> JNull
                                 | Some d \<Rightarrow> JStr (rt_to_iso rt d)) = Inr (dueDate t)"
    using assms by (intro validateDueDate_roundtrip) (simp add: valid_task_def)
  have tgs: "validateTags rt (JArr (map JStr (tags t))) = Inr (tags t)"
    using assms by (intro validateTags_roundtrip) (simp_all add: valid_task_def)
  have subs: "validateSubtasks rt (JArr (map subtask_json (subtasks t))) g
                = (Inr (subtasks t), g)"
    using assms by (intro validateSubtasks_roundtrip) (simp_all add: valid_task_def)
  have i: "truthy (task_id t)" using assms by (simp add: valid_task_def)
  have "Task rt ?j g = (Inr t, g)"
    using cu i ttl
    by (simp add: Task_def monad_defs dsc sts pri due tgs subs valid_date_def)
  with j show ?thesis by (simp add: fromJSON_def)
qed

lemma valid_task1: "valid_task rt0 task1"
  by (simp add: valid_task_def valid_subtask_def valid_date_def task1_def rt0_def
        demo_to_iso_def demo_date_parse_def known_instants_def VALID_STATUSES_def
        VALID_PRIORITIES_def trim_def is_space_def)

lemma toJSON_task1: "toJSON rt0 task1 = Inr record1"
  by (simp add: toJSON_def toISOString_def task1_def record1_def subtask_json_def rt0_def
        demo_to_iso_def known_instants_def)

text \<open>
  C2. For every valid task \<open>t\<close>, \<open>toJSON\<close> succeeds and \<open>fromJSON\<close> of its result
  succeeds and returns \<open>t\<close> itself: every field is the same, the tags and the sub-tasks
  in the same order. The construction takes no identifier and no clock reading.
\<close>

theorem fromJSON_toJSON_roundtrip:
  "valid_task rt t \<Longrightarrow> \<exists>j. toJSON rt t = Inr j \<and> fromJSON rt j g = (Inr t, g)"
  by (rule fromJSON_toJSON_valid)

theorem fromJSON_toJSON_roundtrip_witness:
  "valid_task rt0 task1 \<and> toJSON rt0 task1 = Inr record1 \<and>
   fromJSON rt0 record1 g0 = (Inr task1, g0)"
  using fromJSON_toJSON_roundtrip[OF valid_task1, of g0] valid_task1 toJSON_task1
  by simp

section \<open>The title bound\<close>

lemma Task_title_rejected:
  assumes "get_prop d ''title'' = JStr s" "length (trim s) = 0 \<or> length (trim s) > 100"
  shows "\<exists>e g'. Task rt d g = (Inl e, g') \<and> e \<in> {TitleRequired, TitleEmpty, TitleTooLong}"
proof -
  have d: "d \<noteq> JUndefined" "d \<noteq> JNull" using assms(1) by auto
  have v: "validateTitle (JStr s) = Inl TitleRequired \<or> validateTitle (JStr s) = Inl TitleEmpty
           \<or> validateTitle (JStr s) = Inl TitleTooLong"
    using assms(2) by (auto simp: validateTitle_def Let_def)
  show ?thesis
    using v by (cases "s = []"; cases "truthy (get_prop d ''id'')")
      (auto simp add: Task_def d assms(1) throw_def)
qed

lemma Task_title_accepted:
  assumes "1 \<le> length (trim s)" "length (trim s) \<le> 100"
  shows "\<exists>t g'. Task rt (JObj [(''title'', JStr s)]) g = (Inr t, g') \<and> title t = trim s"
proof -
  have "s \<noteq> []" "trim s \<noteq> []" using assms by auto
  then show ?thesis using assms
    by (simp add: Task_def validateTitle_def validateDescription_def
          validateStatus_def validatePriority_def validateDueDate_def validateTags_def
          validateSubtasks_def ret_def)
qed

text \<open>
  C7 (as amended). The bound is on the trimmed title. Constructing from a record whose
  title is a string that trims to the empty string or to more than 100 characters
  fails, whatever else the record holds; constructing from a record that holds only a
  title whose trimmed form has 1 to 100 characters succeeds and stores the trimmed form.
\<close>

theorem Task_title_bound:
  "(get_prop d ''title'' = JStr s \<and> (length (trim s) = 0 \<or> length (trim s) > 100) \<longrightarrow>
      (\<exists>e g'. Task rt d g = (Inl e, g') \<and> e \<in> {TitleRequired, TitleEmpty, TitleTooLong})) \<and>
   (1 \<le> length (trim s) \<and> length (trim s) \<le> 100 \<longrightarrow>
      (\<exists>t g'. Task rt (JObj [(''title'', JStr s)]) g = (Inr t, g') \<and> title t = trim s))"
  using Task_title_rejected[of d s rt g] Task_title_accepted[of s rt g] by blast

theorem Task_title_bound_witness:
  "(\<exists>e g'. Task rt0 (JObj [(''title'', JStr ''   '')]) g0 = (Inl e, g')) \<and>
   (\<exists>t g'. Task rt0 (JObj [(''title'', JStr '' Buy milk '')]) g0 = (Inr t, g') \<and>
            title t = ''Buy milk'')"
proof -
  have a: "trim ''   '' = []" "trim '' Buy milk '' = ''Buy milk''"
    by (simp_all add: trim_def is_space_def)
  show ?thesis
    using Task_title_bound[of "JObj [(''title'', JStr ''   '')]" "''   ''" rt0 g0]
      Task_title_bound[of "JObj [(''title'', JStr '' Buy milk '')]" "'' Buy milk ''" rt0 g0]
    by (auto simp add: a)
qed

text \<open>
  The claim as stated counts the characters of the title given: the title of one space
  has length 1 and is rejected.
\<close>

theorem Task_title_length_counterexample:
  "length '' '' = 1 \<and> fst (Task rt0 (JObj [(''title'', JStr '' '')]) g0) = Inl TitleEmpty"
  by (simp add: Task_def validateTitle_def trim_def is_space_def)

section \<open>Normalization of status and priority\<close>

lemma validateStatus_str:
  "validateStatus (JStr s) =
     (if s = [] then Inr ''todo''
      else if trim (toLowerCase s) \<in> set VALID_STATUSES then Inr (trim (toLowerCase s))
      else Inl (InvalidStatus (JStr s)))"
  by (simp add: validateStatus_def Let_def)

lemma validatePriority_str:
  "validatePriority (JStr p) =
     (if p = [] then Inr ''medium''
      else if trim (toLowerCase p) \<in> set VALID_PRIORITIES then Inr (trim (toLowerCase p))
      else Inl (InvalidPriority (JStr p)))"
  by (simp add: validatePriority_def Let_def)

lemma Task_status_priority:
  assumes "trim ttl \<noteq> []" "length (trim ttl) \<le> 100"
  shows "Task rt (JObj [(''title'', JStr ttl), (''status'', JStr s), (''priority'', JStr p)]) g =
     (case validateStatus (JStr s) of
        Inl e \<Rightarrow> (Inl e, g\<lparr>uuid_ctr := Suc (uuid_ctr g)\<rparr>)
      | Inr s' \<Rightarrow>
         (case validatePriority (JStr p) of
            Inl e \<Rightarrow> (Inl e, g\<lparr>uuid_ctr := Suc (uuid_ctr g)\<rparr>)
          | Inr p' \<Rightarrow>
              (Inr \<lparr>task_id = JStr (rt_uuid rt (uuid_ctr g)), title = trim ttl,
                    description = None, status = s', priority = p', dueDate = None,
                    tags = [], subtasks = [],
                    createdAt = Some (rt_clock rt (clock_ctr g)),
                    updatedAt = Some (rt_clock rt (Suc (clock_ctr g)))\<rparr>,
               g\<lparr>uuid_ctr := Suc (uuid_ctr g), clock_ctr := Suc (Suc (clock_ctr g))\<rparr>)))"
proof -
  have "ttl \<noteq> []" using assms by auto
  then show ?thesis using assms
    by (cases "validateStatus (JStr s)"; cases "validatePriority (JStr p)")
       (simp_all add: Task_def validateTitle_def validateDescription_def
          validateDueDate_def validateTags_def validateSubtasks_def ret_def)
qed

lemma update_status_only:
  "update rt (JObj [(''status'', JStr s)]) (t, g) =
     (case validateStatus (JStr s) of
        Inl e \<Rightarrow> (Inl e, (t, g))
      | Inr s' \<Rightarrow> (Inr (), (t\<lparr>status := s', updatedAt := Some (rt_clock rt (clock_ctr g))\<rparr>,
                            g\<lparr>clock_ctr := Suc (clock_ctr g)\<rparr>)))"
  by (cases "validateStatus (JStr s)") (simp_all add: update_def)

lemma update_priority_only:
  "update rt (JObj [(''priority'', JStr p)]) (t, g) =
     (case validatePriority (JStr p) of
        Inl e \<Rightarrow> (Inl e, (t, g))
      | Inr p' \<Rightarrow> (Inr (), (t\<lparr>priority := p', updatedAt := Some (rt_clock rt (clock_ctr g))\<rparr>,
                            g\<lparr>clock_ctr := Suc (clock_ctr g)\<rparr>)))"
  by (cases "validatePriority (JStr p)") (simp_all add: update_def)

text \<open>
  C9 (as amended). For a record with a valid title, a status string \<open>s\<close> and a priority
  string \<open>p\<close>: construction succeeds exactly when each string is empty or its
  lowercased, trimmed form is an enumeration value, and then stores the default for an
  empty string and that form otherwise; it fails with the invalid-status or
  invalid-priority error in the other case. \<open>update\<close> with the status alone, or with the
  priority alone, accepts and stores in the same way, and leaves the task as it was when
  it rejects.
\<close>

theorem status_priority_normalized:
  assumes "trim ttl \<noteq> []" "length (trim ttl) \<le> 100"
  shows
   "(accepted VALID_STATUSES s \<and> accepted VALID_PRIORITIES p \<longrightarrow>
       (\<exists>t g'. Task rt (JObj [(''title'', JStr ttl), (''status'', JStr s),
                                (''priority'', JStr p)]) g = (Inr t, g') \<and>
                status t = stored ''todo'' s \<and> priority t = stored ''medium'' p)) \<and>
    (\<not> (accepted VALID_STATUSES s \<and> accepted VALID_PRIORITIES p) \<longrightarrow>
       (\<exists>e g'. Task rt (JObj [(''title'', JStr ttl), (''status'', JStr s),
                                (''priority'', JStr p)]) g = (Inl e, g') \<and>
                e \<in> {InvalidStatus (JStr s), InvalidPriority (JStr p)})) \<and>
    (accepted VALID_STATUSES s \<longrightarrow>
       (\<exists>t' g'. update rt (JObj [(''status'', JStr s)]) (t0, g) = (Inr (), (t', g')) \<and>
                 status t' = stored ''todo'' s)) \<and>
    (\<not> accepted VALID_STATUSES s \<longrightarrow>
       update rt (JObj [(''status'', JStr s)]) (t0, g) = (Inl (InvalidStatus (JStr s)), (t0, g))) \<and>
    (accepted VALID_PRIORITIES p \<longrightarrow>
       (\<exists>t' g'. update rt (JObj [(''priority'', JStr p)]) (t0, g) = (Inr (), (t', g')) \<and>
                 priority t' = stored ''medium'' p)) \<and>
    (\<not> accepted VALID_PRIORITIES p \<longrightarrow>
       update rt (JObj [(''priority'', JStr p)]) (t0, g)
         = (Inl (InvalidPriority (JStr p)), (t0, g)))"
  unfolding Task_status_priority[OF assms] update_status_only update_priority_only
    validateStatus_str validatePriority_str accepted_def stored_def
  by auto


theorem status_priority_normalized_witness:
  "trim ''Buy milk'' \<noteq> [] \<and> length (trim ''Buy milk'') \<le> 100 \<and>
   accepted VALID_STATUSES '' Completed '' \<and> accepted VALID_PRIORITIES ''HIGH'' \<and>
   (\<exists>t g'. Task rt0 (JObj [(''title'', JStr ''Buy milk''), (''status'', JStr '' Completed ''),
                             (''priority'', JStr ''HIGH'')]) g0 = (Inr t, g') \<and>
            status t = ''completed'' \<and> priority t = ''high'') \<and>
   \<not> accepted VALID_STATUSES ''done'' \<and>
   update rt0 (JObj [(''status'', JStr ''done'')]) (task1, g0)
     = (Inl (InvalidStatus (JStr ''done'')), (task1, g0))"
proof -
  have n: "trim (toLowerCase '' Completed '') = ''completed''"
    "trim (toLowerCase ''HIGH'') = ''high''" "trim (toLowerCase ''done'') = ''done''"
    "trim ''Buy milk'' = ''Buy milk''"
    by code_simp+
  show ?thesis
    using status_priority_normalized[of "''Buy milk''" "'' Completed ''" "''HIGH''" rt0 g0 task1]
      status_priority_normalized[of "''Buy milk''" "''done''" "''HIGH''" rt0 g0 task1]
    by (simp add: n accepted_def stored_def VALID_STATUSES_def VALID_PRIORITIES_def)
qed

text \<open>
  The claim as stated rejects every string whose trimmed lowercase form is not an
  enumeration value: the empty string is such a string, and it is accepted and stored as
  the default.
\<close>

theorem empty_status_accepted_counterexample:
  "trim (toLowerCase []) \<notin> set VALID_STATUSES \<and>
   fst (Task rt0 (JObj [(''title'', JStr ''Buy milk''), (''status'', JStr [])]) g0) =
     Inr \<lparr>task_id = JStr ''id-0'', title = ''Buy milk'', description = None,
          status = ''todo'', priority = ''medium'', dueDate = None, tags = [],
          subtasks = [], createdAt = Some 1000, updatedAt = Some 1001\<rparr>"
  by code_simp

section \<open>A failed update\<close>

lemma step_title:
  "bind (if get_prop u ''title'' \<noteq> JUndefined
         then bind (lift (validateTitle (get_prop u ''title''))) (\<lambda>v. assign (\<lambda>t. t\<lparr>title := v\<rparr>))
         else ret ()) k (t, g) =
     (case new_value u ''title'' validateTitle (title t) of
        Inl e \<Rightarrow> (Inl e, (t, g)) | Inr v \<Rightarrow> k () (t\<lparr>title := v\<rparr>, g))"
  by (simp add: monad_defs assign_def new_value_def touched_def split: sum.splits)

lemma step_description:
  "bind (if get_prop u ''description'' \<noteq> JUndefined
         then bind (lift (validateDescription (get_prop u ''description'')))
                (\<lambda>v. assign (\<lambda>t. t\<lparr>description := v\<rparr>))
         else ret ()) k (t, g) =
     (case new_value u ''description'' validateDescription (description t) of
        Inl e \<Rightarrow> (Inl e, (t, g)) | Inr v \<Rightarrow> k () (t\<lparr>description := v\<rparr>, g))"
  by (simp add: monad_defs assign_def new_value_def touched_def split: sum.splits)

lemma step_status:
  "bind (if get_prop u ''status'' \<noteq> JUndefined
         then bind (lift (validateStatus (get_prop u ''status''))) (\<lambda>v. assign (\<lambda>t. t\<lparr>status := v\<rparr>))
         else ret ()) k (t, g) =
     (case new_value u ''status'' validateStatus (status t) of
        Inl e \<Rightarrow> (Inl e, (t, g)) | Inr v \<Rightarrow> k () (t\<lparr>status := v\<rparr>, g))"
  by (simp add: monad_defs assign_def new_value_def touched_def split: sum.splits)

lemma step_priority:
  "bind (if get_prop u ''priority'' \<noteq> JUndefined
         then bind (lift (validatePriority (get_prop u ''priority'')))
                (\<lambda>v. assign (\<lambda>t. t\<lparr>priority := v\<rparr>))
         else ret ()) k (t, g) =
     (case new_value u ''priority'' validatePriority (priority t) of
        Inl e \<Rightarrow> (Inl e, (t, g)) | Inr v \<Rightarrow> k () (t\<lparr>priority := v\<rparr>, g))"
  by (simp add: monad_defs assign_def new_value_def touched_def split: sum.splits)

lemma step_dueDate:
  "bind (if get_prop u ''dueDate'' \<noteq> JUndefined
         then bind (lift (validateDueDate rt (get_prop u ''dueDate'')))
                (\<lambda>v. assign (\<lambda>t. t\<lparr>dueDate := v\<rparr>))
         else ret ()) k (t, g) =
     (case new_value u ''dueDate'' (validateDueDate rt) (dueDate t) of
        Inl e \<Rightarrow> (Inl e, (t, g)) | Inr v \<Rightarrow> k () (t\<lparr>dueDate := v\<rparr>, g))"
  by (simp add: monad_defs assign_def new_value_def touched_def split: sum.splits)

lemma step_tags:
  "bind (if get_prop u ''tags'' \<noteq> JUndefined
         then bind (lift (validateTags rt (get_prop u ''tags''))) (\<lambda>v. assign (\<lambda>t. t\<lparr>tags := v\<rparr>))
         else ret ()) k (t, g) =
     (case new_value u ''tags'' (validateTags rt) (tags t) of
        Inl e \<Rightarrow> (Inl e, (t, g)) | Inr v \<Rightarrow> k () (t\<lparr>tags := v\<rparr>, g))"
  by (simp add: monad_defs assign_def new_value_def touched_def split: sum.splits)

lemma step_subtasks:
  "bind (if get_prop u ''subtasks'' \<noteq> JUndefined
         then bind (in_env (validateSubtasks rt (get_prop u ''subtasks'')))
                (\<lambda>v. assign (\<lambda>t. t\<lparr>subtasks := v\<rparr>))
         else ret ()) k (t, g) =
     (if touched u ''subtasks'' then
        (case validateSubtasks rt (get_prop u ''subtasks'') g of
           (Inl e, g') \<Rightarrow> (Inl e, (t, g'))
         | (Inr v, g') \<Rightarrow> k () (t\<lparr>subtasks := v\<rparr>, g'))
      else k () (t, g))"
  by (simp add: monad_defs assign_def in_env_def touched_def split: sum.splits prod.splits)

lemmas update_steps = step_title step_description step_status step_priority step_dueDate
  step_tags step_subtasks

text \<open>\<open>update\<close> as the chain of its statements.\<close>

lemma update_unfold:
  "update rt u (t, g) =
    (if u = JNull then (Inl TypeError, (t, g)) else
     (case new_value u ''title'' validateTitle (title t) of
        Inl e \<Rightarrow> (Inl e, (t, g)) | Inr v1 \<Rightarrow>
     (case new_value u ''description'' validateDescription (description t) of
        Inl e \<Rightarrow> (Inl e, (t\<lparr>title := v1\<rparr>, g)) | Inr v2 \<Rightarrow>
     (case new_value u ''status'' validateStatus (status t) of
        Inl e \<Rightarrow> (Inl e, (t\<lparr>title := v1, description := v2\<rparr>, g)) | Inr v3 \<Rightarrow>
     (case new_value u ''priority'' validatePriority (priority t) of
        Inl e \<Rightarrow> (Inl e, (t\<lparr>title := v1, description := v2, status := v3\<rparr>, g)) | Inr v4 \<Rightarrow>
     (case new_value u ''dueDate'' (validateDueDate rt) (dueDate t) of
        Inl e \<Rightarrow> (Inl e, (t\<lparr>title := v1, description := v2, status := v3, priority := v4\<rparr>, g))
      | Inr v5 \<Rightarrow>
     (case new_value u ''tags'' (validateTags rt) (tags t) of
        Inl e \<Rightarrow> (Inl e, (t\<lparr>title := v1, description := v2, status := v3, priority := v4,
                             dueDate := v5\<rparr>, g))
      | Inr v6 \<Rightarrow>
     (if touched u ''subtasks'' then
        (case validateSubtasks rt (get_prop u ''subtasks'') g of
           (Inl e, g') \<Rightarrow>
             (Inl e, (t\<lparr>title := v1, description := v2, status := v3, priority := v4,
                        dueDate := v5, tags := v6\<rparr>, g'))
         | (Inr v7, g') \<Rightarrow>
             (Inr (), (t\<lparr>title := v1, description := v2, status := v3, priority := v4,
                         dueDate := v5, tags := v6, subtasks := v7,
                         updatedAt := Some (rt_clock rt (clock_ctr g'))\<rparr>,
                       g'\<lparr>clock_ctr := Suc (clock_ctr g')\<rparr>)))
      else (Inr (), (t\<lparr>title := v1, description := v2, status := v3, priority := v4,
                       dueDate := v5, tags := v6,
                       updatedAt := Some (rt_clock rt (clock_ctr g))\<rparr>,
                     g\<lparr>clock_ctr := Suc (clock_ctr g)\<rparr>))))))))))"
proof (cases "u = JNull \<or> u = JUndefined")
  case True
  then show ?thesis
    by (auto simp add: update_def Let_def new_value_def touched_def throw_def)
next
  case False
  then have u: "u \<noteq> JNull" "u \<noteq> JUndefined" by auto
  show ?thesis
    by (simp add: update_def Let_def u update_steps
          cong: sum.case_cong prod.case_cong if_cong split del: if_split)
qed

text \<open>
  C1 (as amended). \<open>update\<close> validates and assigns field by field, in the order title,
  description, status, priority, dueDate, tags, subtasks. When it fails, the identifier,
  createdAt, updatedAt and the sub-tasks have their prior values; every touched field
  before the first invalid one holds its validated new value; the invalid field and the
  fields after it have their prior values.
\<close>

theorem update_failure_state:
  assumes "update rt u (t, g) = (Inl e, (t', g'))"
  shows "task_id t' = task_id t \<and> createdAt t' = createdAt t \<and> updatedAt t' = updatedAt t \<and>
         subtasks t' = subtasks t \<and>
         title t' = keep (new_value u ''title'' validateTitle (title t)) (title t) \<and>
         description t' =
           (if isl (new_value u ''title'' validateTitle (title t)) then description t
            else keep (new_value u ''description'' validateDescription (description t))
                   (description t)) \<and>
         status t' =
           (if isl (new_value u ''title'' validateTitle (title t)) \<or>
               isl (new_value u ''description'' validateDescription (description t))
            then status t
            else keep (new_value u ''status'' validateStatus (status t)) (status t)) \<and>
         priority t' =
           (if isl (new_value u ''title'' validateTitle (title t)) \<or>
               isl (new_value u ''description'' validateDescription (description t)) \<or>
               isl (new_value u ''status'' validateStatus (status t))
            then priority t
            else keep (new_value u ''priority'' validatePriority (priority t)) (priority t)) \<and>
         dueDate t' =
           (if isl (new_value u ''title'' validateTitle (title t)) \<or>
               isl (new_value u ''description'' validateDescription (description t)) \<or>
               isl (new_value u ''status'' validateStatus (status t)) \<or>
               isl (new_value u ''priority'' validatePriority (priority t))
            then dueDate t
            else keep (new_value u ''dueDate'' (validateDueDate rt) (dueDate t)) (dueDate t)) \<and>
         tags t' =
           (if isl (new_value u ''title'' validateTitle (title t)) \<or>
               isl (new_value u ''description'' validateDescription (description t)) \<or>
               isl (new_value u ''status'' validateStatus (status t)) \<or>
               isl (new_value u ''priority'' validatePriority (priority t)) \<or>
               isl (new_value u ''dueDate'' (validateDueDate rt) (dueDate t))
            then tags t
            else keep (new_value u ''tags'' (validateTags rt) (tags t)) (tags t))"
proof (cases "u = JNull")
  case True
  with assms show ?thesis
    by (simp add: update_unfold new_value_def touched_def keep_def)
next
  case False
  with assms show ?thesis
    unfolding update_unfold
    by (auto simp: keep_def split: sum.splits if_splits prod.splits)
qed

lemma update_bogus_status:
  "update rt0 (JObj [(''title'', JStr ''New title''), (''status'', JStr ''bogus'')]) (task1, g0)
     = (Inl (InvalidStatus (JStr ''bogus'')), (task1\<lparr>title := ''New title''\<rparr>, g0))"
  by code_simp

theorem update_failure_state_witness:
  "update rt0 (JObj [(''title'', JStr ''New title''), (''status'', JStr ''bogus'')]) (task1, g0)
     = (Inl (InvalidStatus (JStr ''bogus'')), (task1\<lparr>title := ''New title''\<rparr>, g0)) \<and>
   title (task1\<lparr>title := ''New title''\<rparr>) = ''New title'' \<and>
   status (task1\<lparr>title := ''New title''\<rparr>) = status task1 \<and>
   updatedAt (task1\<lparr>title := ''New title''\<rparr>) = updatedAt task1"
  using update_failure_state[OF update_bogus_status] update_bogus_status
  by simp

text \<open>
  The claim as stated has every field unchanged after a failed call: a call with a valid
  title and an invalid status fails and leaves the new title in the task.
\<close>

theorem update_not_atomic_counterexample:
  "fst (update rt0 (JObj [(''title'', JStr ''New title''), (''status'', JStr ''bogus'')])
          (task1, g0)) = Inl (InvalidStatus (JStr ''bogus'')) \<and>
   title (fst (snd (update rt0 (JObj [(''title'', JStr ''New title''),
                                      (''status'', JStr ''bogus'')]) (task1, g0))))
     = ''New title'' \<and>
   title task1 = ''Write report''"
  by (simp add: update_bogus_status, simp add: task1_def)

section \<open>Timestamps\<close>

lemma validateSubtask_clock:
  "clock_ctr (snd (validateSubtask rt st i g)) = clock_ctr g"
  by (cases st; cases "get_prop st ''title''")
     (auto simp: validateSubtask_def throw_def ret_def)

lemma map_subtasks_clock:
  "clock_ctr (snd (map_subtasks rt sts i g)) = clock_ctr g"
proof (induction sts arbitrary: i g)
  case Nil
  then show ?case by (simp add: ret_def)
next
  case (Cons st sts)
  obtain r g1 where a: "validateSubtask rt st i g = (r, g1)" by (cases "validateSubtask rt st i g")
  then have g1: "clock_ctr g1 = clock_ctr g" using validateSubtask_clock[of rt st i g] by simp
  show ?case
  proof (cases r)
    case (Inl e)
    then show ?thesis using a g1 by (simp add: bind_def)
  next
    case (Inr x)
    obtain r2 g2 where b: "map_subtasks rt sts (Suc i) g1 = (r2, g2)"
      by (cases "map_subtasks rt sts (Suc i) g1")
    then have "clock_ctr g2 = clock_ctr g1" using Cons.IH[of "Suc i" g1] by simp
    then show ?thesis using a b g1 Inr by (cases r2) (simp_all add: bind_def ret_def)
  qed
qed

lemma validateSubtasks_clock:
  "validateSubtasks rt v g = (r, g') \<Longrightarrow> clock_ctr g' = clock_ctr g"
proof (cases v)
  case (JArr xs)
  assume a: "validateSubtasks rt v g = (r, g')"
  obtain r1 g1 where b: "map_subtasks rt xs 0 g = (r1, g1)" by (cases "map_subtasks rt xs 0 g")
  then have "clock_ctr g1 = clock_ctr g" using map_subtasks_clock[of rt xs 0 g] by simp
  then show ?thesis using a b JArr
    by (cases r1) (auto simp: validateSubtasks_def bind_def throw_def ret_def split: if_splits)
qed (auto simp: validateSubtasks_def ret_def)

lemma update_stamp: "stamp_step rt s (snd (update rt u s))"
proof (cases s)
  case (Pair t g)
  show ?thesis
    unfolding Pair update_unfold stamp_step_def
    by (auto split: sum.splits prod.splits dest: validateSubtasks_clock)
qed

lemma addTag_stamp: "stamp_step rt s (snd (addTag rt v s))"
  by (cases v) (auto simp: addTag_def stamp_step_def throw_def ret_def Let_def)

lemma removeTag_stamp: "stamp_step rt s (snd (removeTag rt v s))"
  by (cases v) (auto simp: removeTag_def stamp_step_def throw_def ret_def Let_def)

lemma addSubtask_stamp: "stamp_step rt s (snd (addSubtask rt v s))"
  by (cases v) (auto simp: addSubtask_def stamp_step_def throw_def ret_def Let_def)

lemma removeSubtask_stamp: "stamp_step rt s (snd (removeSubtask rt v s))"
  by (auto simp: removeSubtask_def stamp_step_def throw_def ret_def Let_def)

lemma toggleSubtask_stamp: "stamp_step rt s (snd (toggleSubtask rt v s))"
  by (auto simp: toggleSubtask_def stamp_step_def throw_def ret_def Let_def)

lemma apply_mutation_stamp: "stamp_step rt s (snd (apply_mutation rt m s))"
  by (cases m)
     (simp_all add: update_stamp addTag_stamp removeTag_stamp addSubtask_stamp
        removeSubtask_stamp toggleSubtask_stamp)

lemma stamp_step_inv:
  assumes "mono (rt_clock rt)" "stamp_step rt s s'"
    "timestamps_ordered (fst s)" "created_in_past rt s"
  shows "timestamps_ordered (fst s') \<and> created_in_past rt s'"
proof -
  obtain c u where cu: "createdAt (fst s) = Some c" "updatedAt (fst s) = Some u" "c \<le> u"
    using assms(3) by (auto simp: timestamps_ordered_def split: option.splits)
  have p: "c \<le> rt_clock rt (clock_ctr (snd s))"
    using assms(4) cu by (simp add: created_in_past_def)
  have "rt_clock rt (clock_ctr (snd s)) \<le> rt_clock rt (Suc (clock_ctr (snd s)))"
    using assms(1) by (simp add: mono_def)
  with p have p': "c \<le> rt_clock rt (Suc (clock_ctr (snd s)))" by simp
  show ?thesis
    using assms(2) cu p p'
    by (auto simp: stamp_step_def timestamps_ordered_def created_in_past_def)
qed

lemma run_mutations_inv:
  assumes "mono (rt_clock rt)"
  shows "timestamps_ordered (fst s) \<Longrightarrow> created_in_past rt s \<Longrightarrow>
         timestamps_ordered (fst (run_mutations rt ms s))"
proof (induction ms arbitrary: s)
  case Nil
  then show ?case by simp
next
  case (Cons m ms)
  have "timestamps_ordered (fst (snd (apply_mutation rt m s))) \<and>
        created_in_past rt (snd (apply_mutation rt m s))"
    using stamp_step_inv[OF assms apply_mutation_stamp Cons.prems] .
  then show ?case using Cons.IH by simp
qed

lemma bind_lift: "bind (lift r) f s = (case r of Inl e \<Rightarrow> (Inl e, s) | Inr v \<Rightarrow> f v s)"
  by (cases r) simp_all

lemma Task_default_timestamps:
  assumes "Task rt d g = (Inr t, g')"
    "\<not> truthy (get_prop d ''createdAt'')" "\<not> truthy (get_prop d ''updatedAt'')"
  shows "createdAt t = Some (rt_clock rt (clock_ctr g)) \<and>
         updatedAt t = Some (rt_clock rt (Suc (clock_ctr g))) \<and>
         clock_ctr g' = Suc (Suc (clock_ctr g))"
proof -
  have d: "d \<noteq> JUndefined" "d \<noteq> JNull"
    using assms(1) by (auto simp: Task_def throw_def)
  show ?thesis
    using assms
    by (auto simp add: Task_def d bind_lift bind_def[of "validateSubtasks rt v" for v] ret_def throw_def
        split: if_splits sum.splits prod.splits dest: validateSubtasks_clock)
qed

text \<open>
  C5 (as amended). Let the clock never run backwards. A task constructed from a record
  that supplies neither createdAt nor updatedAt has updatedAt >= createdAt immediately
  after construction and after every sequence of method calls (update, addTag,
  removeTag, addSubtask, removeSubtask, toggleSubtask), failed calls included. The same
  holds for a task constructed from a record that supplies timestamps when the task
  starts with updatedAt >= createdAt and with createdAt not ahead of the clock; the
  constructor takes supplied timestamps as they are.
\<close>

theorem timestamps_ordered_lifecycle:
  assumes "mono (rt_clock rt)" "Task rt d g = (Inr t, g')"
    "(\<not> truthy (get_prop d ''createdAt'') \<and> \<not> truthy (get_prop d ''updatedAt'')) \<or>
     (timestamps_ordered t \<and> created_in_past rt (t, g'))"
  shows "timestamps_ordered (fst (run_mutations rt ms (t, g')))"
proof -
  have "timestamps_ordered t \<and> created_in_past rt (t, g')"
  proof (cases "timestamps_ordered t \<and> created_in_past rt (t, g')")
    case True
    then show ?thesis .
  next
    case False
    with assms(3) have n: "\<not> truthy (get_prop d ''createdAt'')"
      "\<not> truthy (get_prop d ''updatedAt'')" by auto
    have a: "rt_clock rt (clock_ctr g) \<le> rt_clock rt (Suc (clock_ctr g))"
      "rt_clock rt (clock_ctr g) \<le> rt_clock rt (Suc (Suc (clock_ctr g)))"
      using assms(1) by (simp_all add: mono_def)
    show ?thesis
      using Task_default_timestamps[OF assms(2) n] a
      by (simp add: timestamps_ordered_def created_in_past_def)
  qed
  then show ?thesis using run_mutations_inv[OF assms(1), of "(t, g')" ms] by simp
qed


lemma Task_buy_milk:
  "Task rt0 (JObj [(''title'', JStr ''Buy milk'')]) g0 =
     (Inr \<lparr>task_id = JStr ''id-0'', title = ''Buy milk'', description = None,
           status = ''todo'', priority = ''medium'', dueDate = None, tags = [],
           subtasks = [], createdAt = Some 1000, updatedAt = Some 1001\<rparr>,
      \<lparr>uuid_ctr = 1, clock_ctr = 2\<rparr>)"
  by code_simp

lemma mono_clock_rt0: "mono (rt_clock rt0)"
  by (simp add: rt0_def mono_def)

theorem timestamps_ordered_lifecycle_witness:
  "mono (rt_clock rt0) \<and>
   \<not> truthy (get_prop (JObj [(''title'', JStr ''Buy milk'')]) ''createdAt'') \<and>
   \<not> truthy (get_prop (JObj [(''title'', JStr ''Buy milk'')]) ''updatedAt'') \<and>
   timestamps_ordered
     (fst (run_mutations rt0
             [Update (JObj [(''title'', JStr ''Buy bread'')]), AddTag (JStr ''home''),
              Update (JObj [(''status'', JStr ''bogus'')])]
             (\<lparr>task_id = JStr ''id-0'', title = ''Buy milk'', description = None,
                status = ''todo'', priority = ''medium'', dueDate = None, tags = [],
                subtasks = [], createdAt = Some 1000, updatedAt = Some 1001\<rparr>,
              \<lparr>uuid_ctr = 1, clock_ctr = 2\<rparr>)))"
  using timestamps_ordered_lifecycle[OF mono_clock_rt0 Task_buy_milk,
      of "[Update (JObj [(''title'', JStr ''Buy bread'')]), AddTag (JStr ''home''),
           Update (JObj [(''status'', JStr ''bogus'')])]"]
    mono_clock_rt0
  by simp

text \<open>
  The claim as stated covers a record that supplies its own timestamps: one whose
  updatedAt is a second before its createdAt is constructed as it is.
\<close>

theorem supplied_timestamps_counterexample:
  "fst (Task rt0 (JObj [(''title'', JStr ''Buy milk''),
                        (''createdAt'', JStr ''1970-01-01T00:00:02.000Z''),
                        (''updatedAt'', JStr ''1970-01-01T00:00:01.000Z'')]) g0) =
     Inr \<lparr>task_id = JStr ''id-0'', title = ''Buy milk'', description = None,
          status = ''todo'', priority = ''medium'', dueDate = None, tags = [],
          subtasks = [], createdAt = Some 2000, updatedAt = Some 1000\<rparr> \<and>
   \<not> timestamps_ordered
     \<lparr>task_id = JStr ''id-0'', title = ''Buy milk'', description = None,
      status = ''todo'', priority = ''medium'', dueDate = None, tags = [],
      subtasks = [], createdAt = Some 2000, updatedAt = Some 1000\<rparr>"
  by code_simp

section \<open>Loading\<close>

lemma bindF_retF [simp]: "bindF (retF x) f s = f x s"
  by (simp add: bindF_def retF_def)

lemma bindF_total:
  "bindF (total m) f s = (case m s of (Inl e, s') \<Rightarrow> Some (Inl e, s') | (Inr x, s') \<Rightarrow> f x s')"
  by (simp add: bindF_def total_def split: prod.splits sum.splits)

lemma bindF_total_Inr [simp]: "m s = (Inr x, s') \<Longrightarrow> bindF (total m) f s = f x s'"
  by (simp add: bindF_total)

lemma bindF_total_Inl [simp]: "m s = (Inl e, s') \<Longrightarrow> bindF (total m) f s = Some (Inl e, s')"
  by (simp add: bindF_total)

lemma try_catchF_Some_Inr [simp]:
  "m s = Some (Inr x, s') \<Longrightarrow> try_catchF m h s = Some (Inr x, s')"
  by (simp add: try_catchF_def)

lemma try_catchF_Some_Inl [simp]:
  "m s = Some (Inl e, s') \<Longrightarrow> try_catchF m h s = h e s'"
  by (simp add: try_catchF_def)

lemma try_catchF_None [simp]: "m s = None \<Longrightarrow> try_catchF m h s = None"
  by (simp add: try_catchF_def)

lemma log_eq [simp]: "log l w = (Inr (), w\<lparr>console := console w @ [l]\<rparr>)"
  by (simp add: log_def)

lemma in_gen_eq: "m (gen w) = (r, g') \<Longrightarrow> in_gen m w = (r, w\<lparr>gen := g'\<rparr>)"
  by (simp add: in_gen_def)

text \<open>The loop of \<open>loadTasks\<close> never throws and pushes what \<open>spec_load\<close> lists.\<close>

lemma forEach_load_spec:
  "\<exists>bad' g'. forEach_load rt rs i (ts, bad) w
       = (Inr (ts @ fst (spec_load rt rs (gen w)), bad @ bad'), w\<lparr>gen := g'\<rparr>) \<and>
     length bad' = snd (spec_load rt rs (gen w))"
proof (induction rs arbitrary: i ts bad w)
  case Nil
  have "w\<lparr>gen := gen w\<rparr> = w" by simp
  then show ?case by (auto simp: ret_def intro!: exI[of _ "[]"] exI[of _ "gen w"])
next
  case (Cons r rs)
  obtain x g1 where f: "fromJSON rt r (gen w) = (x, g1)" by (cases "fromJSON rt r (gen w)")
  have ig: "in_gen (fromJSON rt r) w = (x, w\<lparr>gen := g1\<rparr>)" using f by (rule in_gen_eq)
  show ?case
  proof (cases x)
    case (Inl e)
    have step: "try_catch (bind (in_gen (fromJSON rt r)) (\<lambda>task. ret (fst (ts, bad) @ [task], snd (ts, bad))))
             (\<lambda>error. ret (fst (ts, bad), snd (ts, bad) @ [(i, r, error)])) w
           = (Inr (ts, bad @ [(i, r, e)]), w\<lparr>gen := g1\<rparr>)"
      using ig Inl by (simp add: try_catch_def bind_def ret_def)
    obtain bad' g' where ih: "forEach_load rt rs (Suc i) (ts, bad @ [(i, r, e)]) (w\<lparr>gen := g1\<rparr>)
        = (Inr (ts @ fst (spec_load rt rs g1), (bad @ [(i, r, e)]) @ bad'), w\<lparr>gen := g'\<rparr>)"
      "length bad' = snd (spec_load rt rs g1)"
      using Cons.IH[of "Suc i" ts "bad @ [(i, r, e)]" "w\<lparr>gen := g1\<rparr>"] by auto
    show ?thesis
      using step ih f Inl
      by (auto simp add: bind_def split: prod.splits intro!: exI[of _ "(i, r, e) # bad'"] exI[of _ g'])
  next
    case (Inr t)
    have step: "try_catch (bind (in_gen (fromJSON rt r)) (\<lambda>task. ret (fst (ts, bad) @ [task], snd (ts, bad))))
             (\<lambda>error. ret (fst (ts, bad), snd (ts, bad) @ [(i, r, error)])) w
           = (Inr (ts @ [t], bad), w\<lparr>gen := g1\<rparr>)"
      using ig Inr by (simp add: try_catch_def bind_def ret_def)
    obtain bad' g' where ih: "forEach_load rt rs (Suc i) (ts @ [t], bad) (w\<lparr>gen := g1\<rparr>)
        = (Inr ((ts @ [t]) @ fst (spec_load rt rs g1), bad @ bad'), w\<lparr>gen := g'\<rparr>)"
      "length bad' = snd (spec_load rt rs g1)"
      using Cons.IH[of "Suc i" "ts @ [t]" bad "w\<lparr>gen := g1\<rparr>"] by auto
    show ?thesis
      using step ih f Inr
      by (auto simp add: bind_def split: prod.splits intro!: exI[of _ bad'] exI[of _ g'])
  qed
qed


lemma key_neq [simp]:
  "STORAGE_KEY \<noteq> ''__zenith_storage_test__''" "BACKUP_KEY \<noteq> ''__zenith_storage_test__''"
  "BACKUP_KEY \<noteq> STORAGE_KEY"
  by (simp_all add: STORAGE_KEY_def BACKUP_KEY_def)

lemma store_call_reliable:
  "reliable rt \<Longrightarrow> store_call rt op w = (Inr (), w\<lparr>op_ctr := Suc (op_ctr w)\<rparr>)"
  by (simp add: store_call_def reliable_def)

lemma getItem_reliable:
  "reliable rt \<Longrightarrow> getItem rt k w = (Inr (map_of (items w) k), w\<lparr>op_ctr := Suc (op_ctr w)\<rparr>)"
  by (simp add: getItem_def bind_def store_call_reliable)

lemma setItem_reliable:
  "reliable rt \<Longrightarrow>
   setItem rt k v w = (Inr (), w\<lparr>op_ctr := Suc (op_ctr w), items := AList.update k v (items w)\<rparr>)"
  by (simp add: setItem_def bind_def store_call_reliable)

lemma removeItem_reliable:
  "reliable rt \<Longrightarrow>
   removeItem rt k w = (Inr (), w\<lparr>op_ctr := Suc (op_ctr w), items := AList.delete k (items w)\<rparr>)"
  by (simp add: removeItem_def bind_def store_call_reliable)

lemma isAvailable_reliable:
  "reliable rt \<Longrightarrow>
   isAvailable rt w =
     (Inr True, w\<lparr>op_ctr := Suc (Suc (op_ctr w)),
                  items := AList.delete ''__zenith_storage_test__''
                             (AList.update ''__zenith_storage_test__'' ''test'' (items w))\<rparr>)"
  by (simp add: isAvailable_def try_catch_def bind_def ret_def setItem_reliable
        removeItem_reliable)

lemma map_of_update_other [simp]:
  "k \<noteq> p \<Longrightarrow> map_of (AList.update p v its) k = map_of its k"
  by (simp add: update_conv')

lemma map_of_update_same [simp]: "map_of (AList.update k v its) k = Some v"
  by (simp add: update_conv')

lemma map_of_delete_other [simp]:
  "k \<noteq> p \<Longrightarrow> map_of (AList.delete p its) k = map_of its k"
  by (simp add: delete_conv')

text \<open>Loading a stored array from a store that does not fail.\<close>

lemma loadTasks_array:
  assumes "reliable rt" "map_of (items w) STORAGE_KEY = Some raw" "raw \<noteq> []"
    "rt_json_parse rt raw = Some (JArr rs)"
  shows "\<exists>w'. loadTasks rt (Suc n) w = Some (Inr (fst (spec_load rt rs (gen w))), w') \<and>
           items w' = AList.delete ''__zenith_storage_test__''
                        (AList.update ''__zenith_storage_test__'' ''test'' (items w)) \<and>
           console w' = console w @
             (if 0 < snd (spec_load rt rs (gen w))
              then [LogSkipped (snd (spec_load rt rs (gen w)))] else []) @
             [LogLoaded (length (fst (spec_load rt rs (gen w))))]"
proof -
  define w1 where "w1 = w\<lparr>op_ctr := Suc (Suc (op_ctr w)),
               items := AList.delete ''__zenith_storage_test__''
                          (AList.update ''__zenith_storage_test__'' ''test'' (items w))\<rparr>"
  define w2 where "w2 = w1\<lparr>op_ctr := Suc (op_ctr w1)\<rparr>"
  have 1: "isAvailable rt w = (Inr True, w1)"
    using assms(1) by (simp add: isAvailable_reliable w1_def)
  have "map_of (items w1) STORAGE_KEY = Some raw"
    using assms(2) by (simp add: w1_def)
  then have 2: "getItem rt STORAGE_KEY w1 = (Inr (Some raw), w2)"
    using assms(1) by (simp add: getItem_reliable w2_def)
  have g: "gen w2 = gen w" "console w2 = console w" "items w2 = items w1"
    by (simp_all add: w1_def w2_def)
  obtain bad g' where fe:
    "forEach_load rt rs 0 ([], []) w2
       = (Inr (fst (spec_load rt rs (gen w)), bad), w2\<lparr>gen := g'\<rparr>)"
    "length bad = snd (spec_load rt rs (gen w))"
    using forEach_load_spec[of rt rs 0 "[]" "[]" w2] g by auto
  have "loadTasks rt (Suc n) w
     = Some (Inr (fst (spec_load rt rs (gen w))),
         w2\<lparr>gen := g', console := console w @
             (if 0 < snd (spec_load rt rs (gen w))
              then [LogSkipped (snd (spec_load rt rs (gen w)))] else []) @
             [LogLoaded (length (fst (spec_load rt rs (gen w))))]\<rparr>)"
    using assms(3,4) fe(2) g
    by (auto simp add: try_catchF_def bindF_total 1 2 fe(1) ret_def retF_def)
  then show ?thesis using g by (simp add: w1_def)
qed






lemma reliable_rt0: "reliable rt0"
  by (simp add: reliable_def rt0_def)

lemma valid_task3: "valid_task rt0 task3"
  by (simp add: valid_task_def valid_date_def task3_def rt0_def
        demo_to_iso_def demo_date_parse_def known_instants_def VALID_STATUSES_def
        VALID_PRIORITIES_def trim_def is_space_def)

lemma toJSON_task3: "toJSON rt0 task3 = Inr record3"
  by (simp add: toJSON_def toISOString_def task3_def record3_def rt0_def
        demo_to_iso_def known_instants_def)


lemma parse_two:
  "rt_json_parse rt0 (encode (JArr [record1, record3])) = Some (JArr [record1, record3])"
  by code_simp

lemma parse_broken: "rt_json_parse rt0 ''[{broken'' = None"
  by code_simp



section \<open>Recovery from the backup\<close>

lemma restoreFromBackup_reliable:
  "reliable rt \<Longrightarrow> map_of (items w) BACKUP_KEY = Some b \<Longrightarrow> b \<noteq> [] \<Longrightarrow>
   restoreFromBackup rt w =
     (Inr True, w\<lparr>op_ctr := Suc (Suc (op_ctr w)), items := AList.update STORAGE_KEY b (items w)\<rparr>)"
  by (simp add: restoreFromBackup_def try_catch_def bind_def ret_def getItem_reliable
        setItem_reliable)

lemma recoverFromBackup_reliable:
  "reliable rt \<Longrightarrow> map_of (items w) BACKUP_KEY = Some b \<Longrightarrow> b \<noteq> [] \<Longrightarrow>
   rt_json_parse rt b = Some v \<Longrightarrow>
   recoverFromBackup rt w =
     (Inr True, w\<lparr>op_ctr := Suc (Suc (Suc (op_ctr w))),
                  items := AList.update STORAGE_KEY b (items w)\<rparr>)"
  by (simp add: recoverFromBackup_def JSON_parse_def try_catch_def bind_def ret_def
        getItem_reliable restoreFromBackup_reliable)

text \<open>
  C6 (as amended). Let the store not fail, the primary key hold a non-empty text that
  does not parse, and the backup key a non-empty text that parses to the array of two
  serialized valid tasks. Then \<open>loadTasks\<close> returns exactly these two tasks, and
  afterwards the primary key holds the text of the backup key. The primary text has to
  be non-empty: \<open>loadTasks\<close> takes the empty string for a store without tasks before
  it parses anything.
\<close>

theorem loadTasks_recovers_backup:
  assumes "reliable rt"
    "map_of (items w) STORAGE_KEY = Some raw" "raw \<noteq> []" "rt_json_parse rt raw = None"
    "map_of (items w) BACKUP_KEY = Some b" "b \<noteq> []" "rt_json_parse rt b = Some (JArr [j1, j2])"
    "valid_task rt t1" "toJSON rt t1 = Inr j1" "valid_task rt t2" "toJSON rt t2 = Inr j2"
  shows "\<exists>w'. loadTasks rt (Suc (Suc n)) w = Some (Inr [t1, t2], w') \<and>
              map_of (items w') STORAGE_KEY = Some b \<and>
              map_of (items w') BACKUP_KEY = Some b"
proof -
  define w1 where "w1 = w\<lparr>op_ctr := Suc (Suc (op_ctr w)),
               items := AList.delete ''__zenith_storage_test__''
                          (AList.update ''__zenith_storage_test__'' ''test'' (items w))\<rparr>"
  define w2 where "w2 = w1\<lparr>op_ctr := Suc (op_ctr w1)\<rparr>"
  define w3 where "w3 = w2\<lparr>op_ctr := Suc (Suc (Suc (op_ctr w2))),
               items := AList.update STORAGE_KEY b (items w2)\<rparr>"
  have 1: "isAvailable rt w = (Inr True, w1)"
    using assms(1) by (simp add: isAvailable_reliable w1_def)
  have "map_of (items w1) STORAGE_KEY = Some raw"
    using assms(2) by (simp add: w1_def)
  then have 2: "getItem rt STORAGE_KEY w1 = (Inr (Some raw), w2)"
    using assms(1) by (simp add: getItem_reliable w2_def)
  have "map_of (items w2) BACKUP_KEY = Some b"
    using assms(5) by (simp add: w1_def w2_def)
  then have 3: "recoverFromBackup rt w2 = (Inr True, w3)"
    using assms(1,6,7) by (simp add: recoverFromBackup_reliable w3_def)
  have k: "map_of (items w3) STORAGE_KEY = Some b" "map_of (items w3) BACKUP_KEY = Some b"
    using assms(5) by (simp_all add: w1_def w2_def w3_def)
  have r1: "fromJSON rt j1 (gen w3) = (Inr t1, gen w3)"
    using fromJSON_toJSON_valid[OF assms(8), of "gen w3"] assms(9) by auto
  have r2: "fromJSON rt j2 (gen w3) = (Inr t2, gen w3)"
    using fromJSON_toJSON_valid[OF assms(10), of "gen w3"] assms(11) by auto
  have sl: "spec_load rt [j1, j2] (gen w3) = ([t1, t2], 0)"
    by (simp add: r1 r2)
  obtain w' where 4: "loadTasks rt (Suc n) w3 = Some (Inr [t1, t2], w')"
    "items w' = AList.delete ''__zenith_storage_test__''
                  (AList.update ''__zenith_storage_test__'' ''test'' (items w3))"
    using loadTasks_array[OF assms(1) k(1) assms(6,7), of n] sl
    by (auto simp del: loadTasks.simps spec_load.simps)
  have "loadTasks rt (Suc (Suc n)) w = Some (Inr [t1, t2], w')"
    using assms(3,4) 4(1)
    by (simp add: try_catchF_def bindF_total 1 2 3 del: loadTasks.simps(2)[of _ n])
  moreover have "map_of (items w') STORAGE_KEY = Some b" "map_of (items w') BACKUP_KEY = Some b"
    using k by (simp_all add: 4(2))
  ultimately show ?thesis by blast
qed


theorem loadTasks_recovers_backup_witness:
  "reliable rt0 \<and> rt_json_parse rt0 ''[{broken'' = None \<and>
   rt_json_parse rt0 (encode (JArr [record1, record3])) = Some (JArr [record1, record3]) \<and>
   valid_task rt0 task1 \<and> toJSON rt0 task1 = Inr record1 \<and>
   valid_task rt0 task3 \<and> toJSON rt0 task3 = Inr record3 \<and>
   (\<exists>w'. loadTasks rt0 (Suc (Suc 0))
            (world0 [(STORAGE_KEY, ''[{broken''),
                     (BACKUP_KEY, encode (JArr [record1, record3]))])
          = Some (Inr [task1, task3], w') \<and>
         map_of (items w') STORAGE_KEY = Some (encode (JArr [record1, record3])) \<and>
         map_of (items w') BACKUP_KEY = Some (encode (JArr [record1, record3])))"
proof -
  let ?w = "world0 [(STORAGE_KEY, ''[{broken''), (BACKUP_KEY, encode (JArr [record1, record3]))]"
  have m: "map_of (items ?w) STORAGE_KEY = Some ''[{broken''"
    by (simp add: world0_def del: encode.simps)
  have mb: "map_of (items ?w) BACKUP_KEY = Some (encode (JArr [record1, record3]))"
    by (simp add: world0_def del: encode.simps)
  have ne: "''[{broken'' \<noteq> []" "encode (JArr [record1, record3]) \<noteq> []" by simp_all
  show ?thesis
    using loadTasks_recovers_backup[OF reliable_rt0 m ne(1) parse_broken mb ne(2) parse_two
        valid_task1 toJSON_task1 valid_task3 toJSON_task3, of 0]
      reliable_rt0 parse_broken parse_two valid_task1 toJSON_task1 valid_task3 toJSON_task3
    by (simp only: simp_thms)
qed

text \<open>
  The claim as stated covers every malformed primary value. The empty string is one: it
  does not parse, and with two serialized tasks under the backup key \<open>loadTasks\<close>
  returns the empty array and leaves the primary key as it was.
\<close>

theorem empty_primary_not_recovered_counterexample:
  "rt_json_parse rt0 [] = None \<and>
   rt_json_parse rt0 (encode (JArr [record1, record3])) = Some (JArr [record1, record3]) \<and>
   map_option fst
     (loadTasks rt0 (Suc (Suc 0))
        (world0 [(STORAGE_KEY, []), (BACKUP_KEY, encode (JArr [record1, record3]))]))
     = Some (Inr []) \<and>
   map_option (\<lambda>r. map_of (items (snd r)) STORAGE_KEY)
     (loadTasks rt0 (Suc (Suc 0))
        (world0 [(STORAGE_KEY, []), (BACKUP_KEY, encode (JArr [record1, record3]))]))
     = Some (Some [])"
  by code_simp

section \<open>Loading is total\<close>

lemma spec_load_constructed:
  "t \<in> set (fst (spec_load rt rs g)) \<Longrightarrow> constructed rt t"
proof (induction rs arbitrary: g)
  case Nil
  then show ?case by simp
next
  case (Cons r rs)
  obtain x g1 where f: "fromJSON rt r g = (x, g1)" by (cases "fromJSON rt r g")
  show ?case
  proof (cases x)
    case (Inl e)
    then have "t \<in> set (fst (spec_load rt rs g1))"
      using Cons.prems f by (simp split: prod.splits)
    then show ?thesis by (rule Cons.IH)
  next
    case (Inr t')
    then have "t = t' \<or> t \<in> set (fst (spec_load rt rs g1))"
      using Cons.prems f by (auto split: prod.splits)
    then show ?thesis
    proof
      assume "t = t'"
      then show ?thesis using f Inr by (auto simp: constructed_def)
    next
      assume "t \<in> set (fst (spec_load rt rs g1))"
      then show ?thesis by (rule Cons.IH)
    qed
  qed
qed

lemma store_call_cases:
  "(\<exists>e. store_call rt op w = (Inl e, w\<lparr>op_ctr := Suc (op_ctr w)\<rparr>)) \<or>
   store_call rt op w = (Inr (), w\<lparr>op_ctr := Suc (op_ctr w)\<rparr>)"
  by (simp add: store_call_def split: option.splits)

lemma getItem_cases:
  "(\<exists>e w'. getItem rt k w = (Inl e, w')) \<or>
   (\<exists>w'. getItem rt k w = (Inr (map_of (items w) k), w') \<and> items w' = items w)"
  using store_call_cases[of rt "GetItem k" w] by (auto simp: getItem_def bind_def)

lemma setItem_cases:
  "(\<exists>e w'. setItem rt k v w = (Inl e, w') \<and> items w' = items w) \<or>
   (\<exists>w'. setItem rt k v w = (Inr (), w') \<and> items w' = AList.update k v (items w))"
  using store_call_cases[of rt "SetItem k v" w] by (auto simp: setItem_def bind_def)

lemma removeItem_cases:
  "(\<exists>e w'. removeItem rt k w = (Inl e, w') \<and> items w' = items w) \<or>
   (\<exists>w'. removeItem rt k w = (Inr (), w') \<and> items w' = AList.delete k (items w))"
  using store_call_cases[of rt "RemoveItem k" w] by (auto simp: removeItem_def bind_def)

lemma isAvailable_cases:
  "\<exists>b w1. isAvailable rt w = (Inr b, w1) \<and>
          (b \<longrightarrow> (\<forall>k. k \<noteq> ''__zenith_storage_test__'' \<longrightarrow>
                       map_of (items w1) k = map_of (items w) k))"
proof -
  consider (a) e w1 where "setItem rt ''__zenith_storage_test__'' ''test'' w = (Inl e, w1)"
    | (b) w1 where "setItem rt ''__zenith_storage_test__'' ''test'' w = (Inr (), w1)"
        "items w1 = AList.update ''__zenith_storage_test__'' ''test'' (items w)"
    using setItem_cases[of rt "''__zenith_storage_test__''" "''test''" w] by auto
  then show ?thesis
  proof cases
    case a
    then show ?thesis by (auto simp add: isAvailable_def try_catch_def bind_def ret_def)
  next
    case b
    consider (c) e w2 where "removeItem rt ''__zenith_storage_test__'' w1 = (Inl e, w2)"
      | (d) w2 where "removeItem rt ''__zenith_storage_test__'' w1 = (Inr (), w2)"
          "items w2 = AList.delete ''__zenith_storage_test__'' (items w1)"
      using removeItem_cases[of rt "''__zenith_storage_test__''" w1] by auto
    then show ?thesis
    proof cases
      case c
      then show ?thesis using b by (auto simp add: isAvailable_def try_catch_def bind_def ret_def)
    next
      case d
      then show ?thesis using b by (auto simp add: isAvailable_def try_catch_def bind_def ret_def)
    qed
  qed
qed

lemma restoreFromBackup_cases:
  "\<exists>bv w'. restoreFromBackup rt w = (Inr bv, w') \<and>
     (bv \<longrightarrow> (\<exists>b. map_of (items w) BACKUP_KEY = Some b \<and> b \<noteq> [] \<and>
                    map_of (items w') STORAGE_KEY = Some b))"
proof -
  consider (a) e w1 where "getItem rt BACKUP_KEY w = (Inl e, w1)"
    | (b) w1 where "getItem rt BACKUP_KEY w = (Inr (map_of (items w) BACKUP_KEY), w1)"
        "items w1 = items w"
    using getItem_cases[of rt BACKUP_KEY w] by auto
  then show ?thesis
  proof cases
    case a
    then show ?thesis by (auto simp add: restoreFromBackup_def try_catch_def bind_def ret_def)
  next
    case b
    show ?thesis
    proof (cases "present (map_of (items w) BACKUP_KEY)")
      case False
      then show ?thesis using b
        by (auto simp add: restoreFromBackup_def try_catch_def bind_def ret_def)
    next
      case True
      then obtain bk where bk: "map_of (items w) BACKUP_KEY = Some bk" "bk \<noteq> []"
        by (cases "map_of (items w) BACKUP_KEY") auto
      consider (c) e w2 where "setItem rt STORAGE_KEY bk w1 = (Inl e, w2)"
        | (d) w2 where "setItem rt STORAGE_KEY bk w1 = (Inr (), w2)"
            "items w2 = AList.update STORAGE_KEY bk (items w1)"
        using setItem_cases[of rt STORAGE_KEY bk w1] by auto
      then show ?thesis
      proof cases
        case c
        then show ?thesis using b bk
          by (auto simp add: restoreFromBackup_def try_catch_def bind_def ret_def)
      next
        case d
        then show ?thesis using b bk
          by (auto simp add: restoreFromBackup_def try_catch_def bind_def ret_def)
      qed
    qed
  qed
qed

lemma recoverFromBackup_True:
  assumes "recoverFromBackup rt w = (Inr True, w')"
  shows "\<exists>b. b \<noteq> [] \<and> rt_json_parse rt b \<noteq> None \<and> map_of (items w') STORAGE_KEY = Some b"
proof -
  consider (a) e w1 where "getItem rt BACKUP_KEY w = (Inl e, w1)"
    | (b) w1 where "getItem rt BACKUP_KEY w = (Inr (map_of (items w) BACKUP_KEY), w1)"
        "items w1 = items w"
    using getItem_cases[of rt BACKUP_KEY w] by auto
  then show ?thesis
  proof cases
    case a
    then show ?thesis using assms by (simp add: recoverFromBackup_def bind_def)
  next
    case b
    show ?thesis
    proof (cases "present (map_of (items w) BACKUP_KEY)")
      case False
      then show ?thesis using assms b by (simp add: recoverFromBackup_def bind_def ret_def)
    next
      case True
      then obtain bk where bk: "map_of (items w) BACKUP_KEY = Some bk" "bk \<noteq> []"
        by (cases "map_of (items w) BACKUP_KEY") auto
      show ?thesis
      proof (cases "rt_json_parse rt bk")
        case None
        then show ?thesis using assms b bk
          by (simp add: recoverFromBackup_def bind_def ret_def JSON_parse_def try_catch_def
                throw_def)
      next
        case (Some v)
        obtain bv w2 where r: "restoreFromBackup rt w1 = (Inr bv, w2)"
          "bv \<longrightarrow> (\<exists>b. map_of (items w1) BACKUP_KEY = Some b \<and> b \<noteq> [] \<and>
                         map_of (items w2) STORAGE_KEY = Some b)"
          using restoreFromBackup_cases[of rt w1] by blast
        have "recoverFromBackup rt w = (Inr bv, w2)"
          using b bk Some r(1)
          by (simp add: recoverFromBackup_def bind_def ret_def JSON_parse_def try_catch_def)
        with assms have "bv" "w2 = w'" by auto
        then show ?thesis using r(2) b(2) bk Some by auto
      qed
    qed
  qed
qed

lemma handler_eq:
  "bindF (total (log (LogUnexpected e))) (\<lambda>_. retF []) w
     = Some (Inr [], w\<lparr>console := console w @ [LogUnexpected e]\<rparr>)"
  by (simp add: bindF_total retF_def)

lemma clear_then_empty:
  "\<exists>w'. try_catchF (bindF (total (clearCorruptedData rt raw)) (\<lambda>_. retF []))
           (\<lambda>error. bindF (total (log (LogUnexpected error))) (\<lambda>_. retF [])) w
         = Some (Inr [], w')"
  by (cases "clearCorruptedData rt raw w" rule: prod.exhaust[case_names Pair],
      rename_tac r w1, case_tac r)
     (simp_all add: try_catchF_def bindF_total retF_def)

lemma not_array_case:
  "\<not> is_array v \<Longrightarrow> (case v of JArr xs \<Rightarrow> A xs | _ \<Rightarrow> B) = B"
  by (cases v) auto


text \<open>
  One call of \<open>loadTasks\<close> returns an array of constructed tasks, provided the call it
  makes to itself after a successful recovery does.
\<close>

lemma loadTasks_step:
  assumes rec: "\<And>w3 b. b \<noteq> [] \<Longrightarrow> rt_json_parse rt b \<noteq> None \<Longrightarrow>
      map_of (items w3) STORAGE_KEY = Some b \<Longrightarrow>
      \<exists>raw. map_of (items w) STORAGE_KEY = Some raw \<and> raw \<noteq> [] \<and> rt_json_parse rt raw = None \<Longrightarrow>
      \<exists>ts w'. loadTasks rt n w3 = Some (Inr ts, w') \<and> (\<forall>t \<in> set ts. constructed rt t)"
  shows "\<exists>ts w'. loadTasks rt (Suc n) w = Some (Inr ts, w') \<and> (\<forall>t \<in> set ts. constructed rt t)"
proof -
  obtain b1 w1 where av: "isAvailable rt w = (Inr b1, w1)"
    and fr: "b1 \<longrightarrow> (\<forall>k. k \<noteq> ''__zenith_storage_test__'' \<longrightarrow>
                         map_of (items w1) k = map_of (items w) k)"
    using isAvailable_cases[of rt w] by blast
  show ?thesis
  proof (cases b1)
    case False
    then show ?thesis using av by (simp add: try_catchF_def bindF_total retF_def)
  next
    case True
    then have key: "map_of (items w1) STORAGE_KEY = map_of (items w) STORAGE_KEY"
      using fr by simp
    consider (thr) e w2 where "getItem rt STORAGE_KEY w1 = (Inl e, w2)"
      | (ok) w2 where "getItem rt STORAGE_KEY w1 = (Inr (map_of (items w) STORAGE_KEY), w2)"
      using getItem_cases[of rt STORAGE_KEY w1] key by auto
    then show ?thesis
    proof cases
      case thr
      then show ?thesis using av True by (simp add: try_catchF_def bindF_total retF_def)
    next
      case ok
      show ?thesis
      proof (cases "present (map_of (items w) STORAGE_KEY)")
        case False
        then show ?thesis using av True ok by (simp add: try_catchF_def bindF_total retF_def)
      next
        case pr: True
        then obtain raw where raw: "map_of (items w) STORAGE_KEY = Some raw" "raw \<noteq> []"
          by (cases "map_of (items w) STORAGE_KEY") auto
        show ?thesis
        proof (cases "rt_json_parse rt raw")
          case None
          obtain r3 w3 where rb: "recoverFromBackup rt w2 = (r3, w3)"
            by (cases "recoverFromBackup rt w2")
          show ?thesis
          proof (cases r3)
            case (Inl e)
            then show ?thesis using av True ok raw None rb
              by (simp add: try_catchF_def bindF_total retF_def)
          next
            case (Inr recovered)
            show ?thesis
            proof (cases recovered)
              case rt: True
              obtain b where b: "b \<noteq> []" "rt_json_parse rt b \<noteq> None"
                "map_of (items w3) STORAGE_KEY = Some b"
                using recoverFromBackup_True[of rt w2 w3] rb Inr rt by auto
              obtain ts w' where l: "loadTasks rt n w3 = Some (Inr ts, w')"
                "\<forall>t \<in> set ts. constructed rt t"
                using rec[OF b] raw None by blast
              then show ?thesis using av True ok raw None rb Inr rt
                by (simp add: try_catchF_def bindF_total retF_def)
            next
              case rf: False
              obtain w4 where
                "try_catchF (bindF (total (clearCorruptedData rt raw)) (\<lambda>_. retF []))
                   (\<lambda>error. bindF (total (log (LogUnexpected error))) (\<lambda>_. retF [])) w3
                 = Some (Inr [], w4)"
                using clear_then_empty[of rt raw w3] by blast
              then show ?thesis using av True ok raw None rb Inr rf
                by (simp add: try_catchF_def bindF_total retF_def split: prod.splits sum.splits)
            qed
          qed
        next
          case (Some v)
          show ?thesis
          proof (cases "is_array v")
            case True
            then obtain xs where JArr: "v = JArr xs" by (cases v) auto
            obtain bad g' where fe:
              "forEach_load rt xs 0 ([], []) w2
                 = (Inr (fst (spec_load rt xs (gen w2)), bad), w2\<lparr>gen := g'\<rparr>)"
              using forEach_load_spec[of rt xs 0 "[]" "[]" w2] by auto
            have c: "\<forall>t \<in> set (fst (spec_load rt xs (gen w2))). constructed rt t"
              using spec_load_constructed by blast
            show ?thesis using av \<open>b1\<close> ok raw Some JArr fe c
              by (simp add: try_catchF_def bindF_total retF_def ret_def
                    del: spec_load.simps)
          next
            case False
            obtain w4 where
              "try_catchF (bindF (total (clearCorruptedData rt raw)) (\<lambda>_. retF []))
                 (\<lambda>error. bindF (total (log (LogUnexpected error))) (\<lambda>_. retF [])) w2
               = Some (Inr [], w4)"
              using clear_then_empty[of rt raw w2] by blast
            then show ?thesis using av \<open>b1\<close> ok raw Some False
              by (simp add: try_catchF_def bindF_total retF_def not_array_case
                    split: prod.splits sum.splits)
          qed
        qed
      qed
    qed
  qed
qed

lemma loadTasks_parsed:
  assumes "\<And>raw. map_of (items w) STORAGE_KEY = Some raw \<Longrightarrow> raw \<noteq> [] \<Longrightarrow>
             rt_json_parse rt raw \<noteq> None"
  shows "\<exists>ts w'. loadTasks rt (Suc n) w = Some (Inr ts, w') \<and> (\<forall>t \<in> set ts. constructed rt t)"
  using assms by (intro loadTasks_step) blast

lemma loadTasks_twice:
  "\<exists>ts w'. loadTasks rt (Suc (Suc n)) w = Some (Inr ts, w') \<and> (\<forall>t \<in> set ts. constructed rt t)"
proof (rule loadTasks_step)
  fix w3 :: world and b :: string
  assume "b \<noteq> []" "rt_json_parse rt b \<noteq> None" "map_of (items w3) STORAGE_KEY = Some b"
  then show "\<exists>ts w'. loadTasks rt (Suc n) w3 = Some (Inr ts, w') \<and> (\<forall>t \<in> set ts. constructed rt t)"
    by (intro loadTasks_parsed) auto
qed

text \<open>
  The paths on which nothing is loaded end with the empty array: the store is not
  available, reading the primary key throws, the primary key is absent or empty, its
  text parses to something that is not an array, or it does not parse and the recovery
  from the backup fails or throws.
\<close>

lemma loadTasks_unavailable:
  assumes "isAvailable rt w = (Inr False, w1)"
  shows "loadTasks rt (Suc n) w = Some (Inr [], w1)"
  using assms by (simp add: try_catchF_def bindF_total retF_def)

lemma loadTasks_read_throws:
  assumes "isAvailable rt w = (Inr True, w1)" "getItem rt STORAGE_KEY w1 = (Inl e, w2)"
  shows "loadTasks rt (Suc n) w = Some (Inr [], w2\<lparr>console := console w2 @ [LogUnexpected e]\<rparr>)"
  using assms by (simp add: try_catchF_def bindF_total retF_def)

lemma loadTasks_no_data:
  assumes "isAvailable rt w = (Inr True, w1)" "getItem rt STORAGE_KEY w1 = (Inr rawData, w2)"
    "\<not> present rawData"
  shows "loadTasks rt (Suc n) w = Some (Inr [], w2)"
  using assms by (simp add: try_catchF_def bindF_total retF_def)

lemma loadTasks_not_array:
  assumes "isAvailable rt w = (Inr True, w1)" "getItem rt STORAGE_KEY w1 = (Inr (Some raw), w2)"
    "raw \<noteq> []" "rt_json_parse rt raw = Some v" "\<not> is_array v"
  shows "\<exists>w'. loadTasks rt (Suc n) w = Some (Inr [], w')"
proof -
  obtain w4 where
    "try_catchF (bindF (total (clearCorruptedData rt raw)) (\<lambda>_. retF []))
       (\<lambda>error. bindF (total (log (LogUnexpected error))) (\<lambda>_. retF [])) w2
     = Some (Inr [], w4)"
    using clear_then_empty[of rt raw w2] by blast
  then show ?thesis using assms
    by (simp add: try_catchF_def bindF_total retF_def not_array_case
          split: prod.splits sum.splits)
qed

lemma loadTasks_unrecovered:
  assumes "isAvailable rt w = (Inr True, w1)" "getItem rt STORAGE_KEY w1 = (Inr (Some raw), w2)"
    "raw \<noteq> []" "rt_json_parse rt raw = None" "recoverFromBackup rt w2 = (r, w3)"
    "r \<noteq> Inr True"
  shows "\<exists>w'. loadTasks rt (Suc n) w = Some (Inr [], w')"
proof (cases r)
  case (Inl e)
  then show ?thesis using assms by (simp add: try_catchF_def bindF_total retF_def)
next
  case (Inr recovered)
  then have rf: "\<not> recovered" using assms by auto
  obtain w4 where
    "try_catchF (bindF (total (clearCorruptedData rt raw)) (\<lambda>_. retF []))
       (\<lambda>error. bindF (total (log (LogUnexpected error))) (\<lambda>_. retF [])) w3
     = Some (Inr [], w4)"
    using clear_then_empty[of rt raw w3] by blast
  then show ?thesis using assms Inr rf
    by (simp add: try_catchF_def bindF_total retF_def split: prod.splits sum.splits)
qed

text \<open>
  C10. For every runtime, whatever its store raises and whatever the store holds,
  \<open>loadTasks\<close> returns with two nested calls allowed: it calls itself at most once.
  It returns normally, never an exception, and every task of the array it returns was
  returned by \<open>fromJSON\<close> (the constructor) on some record. The array is empty on the
  failure paths, by the five lemmas above.
\<close>

theorem loadTasks_total:
  "\<exists>ts w'. loadTasks rt (Suc (Suc n)) w = Some (Inr ts, w') \<and>
            (\<forall>t \<in> set ts. constructed rt t)"
  by (rule loadTasks_twice)

lemma loadTasks_two_records:
  "map_option fst
     (loadTasks rt0 (Suc (Suc 0)) (world0 [(STORAGE_KEY, encode (JArr [record1, record3]))]))
   = Some (Inr [task1, task3])"
  by code_simp

theorem loadTasks_total_witness:
  "\<exists>ts w'. loadTasks rt0 (Suc (Suc 0)) (world0 [(STORAGE_KEY, encode (JArr [record1, record3]))])
             = Some (Inr ts, w') \<and>
           ts = [task1, task3] \<and> (\<forall>t \<in> set ts. constructed rt0 t)"
proof -
  obtain ts w' where
    a: "loadTasks rt0 (Suc (Suc 0)) (world0 [(STORAGE_KEY, encode (JArr [record1, record3]))])
          = Some (Inr ts, w')"
    and c: "\<forall>t \<in> set ts. constructed rt0 t"
    using loadTasks_total[of rt0 0 "world0 [(STORAGE_KEY, encode (JArr [record1, record3]))]"]
    by (elim exE conjE)
  have "ts = [task1, task3]"
    using loadTasks_two_records by (simp only: a) simp
  then show ?thesis using a c by (intro exI[of _ ts] exI[of _ w'] conjI)
qed

section \<open>A failed save and the backup\<close>

lemma Task_undated:
  "Task rt0 (JObj [(''title'', JStr ''Pay rent''), (''createdAt'', JStr ''yesterday'')]) g0
     = (Inr task_undated, \<lparr>uuid_ctr = 1, clock_ctr = 1\<rparr>)"
  by code_simp

text \<open>
  C4. The claim has a failed save leave the primary key no worse off than before. The
  code restores the backup on every exception, also on one raised before this call has
  refreshed the backup. Here the primary key holds two tasks and the backup key the
  older, empty collection; the array to save holds a task whose createdAt is the
  invalid date, so \<open>toJSON\<close> throws before \<open>createBackup\<close> runs; the save reports
  failure and leaves the older collection under the primary key.
\<close>

theorem saveTasks_restores_stale_backup:
  "map_option (\<lambda>r. (fst r, map_of (items (snd r)) STORAGE_KEY))
     (saveTasks rt0 (Suc 0) (Arr [Inst task_undated])
        (world0 [(STORAGE_KEY, encode (JArr [record1, record3])), (BACKUP_KEY, ''[]'')]))
   = Some (Inr False, Some ''[]'')"
  by code_simp

section \<open>The retry after a capacity failure\<close>

lemma length_demo_to_iso: "length (demo_to_iso t) = 24"
  by (simp add: demo_to_iso_def known_instants_def)

lemma length_encode_record1: "length (encode (JArr [record1])) = 288"
  by code_simp

lemma rt_small_simps [simp]:
  "rt_fault rt_small = quota_fault 350" "rt_to_iso rt_small = demo_to_iso"
  "rt_json_stringify rt_small = encode" "rt_clock rt_small = (\<lambda>n. 1000 + int n)"
  by (simp_all add: rt_small_def rt0_def)

lemma toJSON_task1_small: "toJSON rt_small task1 = Inr record1"
  by code_simp



lemma key_distinct [simp]:
  "STORAGE_KEY \<noteq> TEST_KEY" "BACKUP_KEY \<noteq> TEST_KEY" "BACKUP_TIME_KEY \<noteq> TEST_KEY"
  "BACKUP_KEY \<noteq> STORAGE_KEY" "BACKUP_TIME_KEY \<noteq> STORAGE_KEY" "BACKUP_TIME_KEY \<noteq> BACKUP_KEY"
  "TEST_KEY \<noteq> STORAGE_KEY" "TEST_KEY \<noteq> BACKUP_KEY" "TEST_KEY \<noteq> BACKUP_TIME_KEY"
  "STORAGE_KEY \<noteq> BACKUP_KEY" "STORAGE_KEY \<noteq> BACKUP_TIME_KEY" "BACKUP_KEY \<noteq> BACKUP_TIME_KEY"
  by (simp_all add: STORAGE_KEY_def BACKUP_KEY_def BACKUP_TIME_KEY_def TEST_KEY_def)

lemma key_length [simp]:
  "length STORAGE_KEY = 12" "length BACKUP_KEY = 19" "length BACKUP_TIME_KEY = 24"
  "length TEST_KEY = 23"
  by (simp_all add: STORAGE_KEY_def BACKUP_KEY_def BACKUP_TIME_KEY_def TEST_KEY_def)

lemma key_stale [simp]:
  "\<not> stale_key (Some STORAGE_KEY)" "stale_key (Some BACKUP_KEY)"
  "stale_key (Some BACKUP_TIME_KEY)"
  by (simp_all add: stale_key_def starts_with_def STORAGE_KEY_def BACKUP_KEY_def
        BACKUP_TIME_KEY_def)

lemma getItem_small:
  "getItem rt_small k w = (Inr (map_of (items w) k), w\<lparr>op_ctr := Suc (op_ctr w)\<rparr>)"
  by (simp add: getItem_def bind_def store_call_def quota_fault_def)

lemma removeItem_small:
  "removeItem rt_small k w
     = (Inr (), w\<lparr>op_ctr := Suc (op_ctr w), items := AList.delete k (items w)\<rparr>)"
  by (simp add: removeItem_def bind_def store_call_def quota_fault_def)

lemma storeLength_small:
  "storeLength rt_small w = (Inr (length (items w)), w\<lparr>op_ctr := Suc (op_ctr w)\<rparr>)"
  by (simp add: storeLength_def bind_def store_call_def quota_fault_def)

lemma storeKey_small:
  "storeKey rt_small i w
     = (Inr (if i < length (items w) then Some (fst (items w ! i)) else None),
        w\<lparr>op_ctr := Suc (op_ctr w)\<rparr>)"
  by (simp add: storeKey_def bind_def store_call_def quota_fault_def)

lemma setItem_small:
  "setItem rt_small k v w =
     (if 350 < store_size (AList.update k v (items w))
      then (Inl QuotaExceededError, w\<lparr>op_ctr := Suc (op_ctr w)\<rparr>)
      else (Inr (), w\<lparr>op_ctr := Suc (op_ctr w), items := AList.update k v (items w)\<rparr>))"
  by (simp add: setItem_def bind_def store_call_def quota_fault_def)

lemma isAvailable_small:
  assumes "items w = [(STORAGE_KEY, ''[]'')]"
  shows "isAvailable rt_small w = (Inr True, w\<lparr>op_ctr := Suc (Suc (op_ctr w))\<rparr>)"
  using assms
  by (simp add: isAvailable_def TEST_KEY_def[symmetric] try_catch_def bind_def ret_def
        setItem_small removeItem_small store_size_def)

lemma createBackup_small:
  assumes "items w = [(STORAGE_KEY, ''[]'')]"
  shows "createBackup rt_small w =
     (Inr (), w\<lparr>gen := (gen w)\<lparr>clock_ctr := Suc (clock_ctr (gen w))\<rparr>,
                 op_ctr := Suc (Suc (Suc (op_ctr w))),
                 items := [(STORAGE_KEY, ''[]''), (BACKUP_KEY, ''[]''),
                           (BACKUP_TIME_KEY, demo_to_iso (1000 + int (clock_ctr (gen w))))]\<rparr>)"
  using assms
  by (simp add: createBackup_def BACKUP_TIME_KEY_def[symmetric] try_catch_def bind_def ret_def
        getItem_small setItem_small store_size_def in_gen_def now_def length_demo_to_iso)

lemma setItem_rejected:
  assumes "items w = [(STORAGE_KEY, ''[]''), (BACKUP_KEY, ''[]''), (BACKUP_TIME_KEY, stamp)]"
    "length stamp = 24"
  shows "setItem rt_small STORAGE_KEY (encode (JArr [record1])) w
           = (Inl QuotaExceededError, w\<lparr>op_ctr := Suc (op_ctr w)\<rparr>)"
  using assms length_encode_record1
  by (simp add: setItem_small store_size_def del: encode.simps)

lemma scan_keys_small:
  assumes "items w = [(STORAGE_KEY, ''[]''), (BACKUP_KEY, ''[]''), (BACKUP_TIME_KEY, stamp)]"
  shows "scan_keys rt_small 0 [] w
           = (Inr [BACKUP_KEY, BACKUP_TIME_KEY], w\<lparr>op_ctr := op_ctr w + 7\<rparr>)"
proof -
  have 3: "scan_keys rt_small (Suc (Suc (Suc 0))) ks (w\<lparr>op_ctr := c\<rparr>)
             = (Inr ks, w\<lparr>op_ctr := Suc c\<rparr>)" for ks c
    using assms by (subst scan_keys.simps) (simp add: storeLength_small)
  have 2: "scan_keys rt_small (Suc (Suc 0)) ks (w\<lparr>op_ctr := c\<rparr>)
             = (Inr (ks @ [BACKUP_TIME_KEY]), w\<lparr>op_ctr := Suc (Suc (Suc c))\<rparr>)" for ks c
    using assms by (subst scan_keys.simps) (simp add: storeLength_small storeKey_small 3)
  have 1: "scan_keys rt_small (Suc 0) ks (w\<lparr>op_ctr := c\<rparr>)
             = (Inr (ks @ [BACKUP_KEY, BACKUP_TIME_KEY]),
                w\<lparr>op_ctr := Suc (Suc (Suc (Suc (Suc c))))\<rparr>)" for ks c
    using assms by (subst scan_keys.simps) (simp add: storeLength_small storeKey_small 2)
  show ?thesis
    using assms by (subst scan_keys.simps) (simp add: storeLength_small storeKey_small 1)
qed

lemma remove_keys_small:
  assumes "items w = [(STORAGE_KEY, ''[]''), (BACKUP_KEY, ''[]''), (BACKUP_TIME_KEY, stamp)]"
  shows "remove_keys rt_small [BACKUP_KEY, BACKUP_TIME_KEY] w
           = (Inr (), w\<lparr>op_ctr := Suc (Suc (op_ctr w)), items := [(STORAGE_KEY, ''[]'')]\<rparr>)"
  using assms by (simp add: removeItem_small bind_def ret_def)


lemma handleQuotaExceeded_small:
  assumes "items w = [(STORAGE_KEY, ''[]''), (BACKUP_KEY, ''[]''), (BACKUP_TIME_KEY, stamp)]"
    "retry (w\<lparr>op_ctr := op_ctr w + 9, items := [(STORAGE_KEY, ''[]'')]\<rparr>) = None"
  shows "handleQuotaExceeded rt_small retry w = None"
proof -
  have "remove_keys rt_small [BACKUP_KEY, BACKUP_TIME_KEY] (w\<lparr>op_ctr := op_ctr w + 7\<rparr>)
          = (Inr (), w\<lparr>op_ctr := op_ctr w + 9, items := [(STORAGE_KEY, ''[]'')]\<rparr>)"
    using remove_keys_small[of "w\<lparr>op_ctr := op_ctr w + 7\<rparr>" stamp] assms(1) by simp
  then show ?thesis
    using assms(2)
    by (simp add: handleQuotaExceeded_def bindF_def try_catchF_def total_def
          scan_keys_small[OF assms(1)])
qed

text \<open>
  One round of \<open>saveTasks\<close> on the small store that holds the empty collection: the
  probe and the backup fit, the new text does not, the cleanup finds the backup that
  this very call wrote and removes it, and the call it retries with starts from the same
  contents.
\<close>

lemma saveTasks_round:
  assumes "items w = [(STORAGE_KEY, ''[]'')]"
  shows "\<exists>w'. items w' = [(STORAGE_KEY, ''[]'')] \<and>
           (saveTasks rt_small n (Arr [Inst task1]) w' = None \<longrightarrow>
            saveTasks rt_small (Suc n) (Arr [Inst task1]) w = None)"
proof -
  define stamp where "stamp = demo_to_iso (1000 + int (clock_ctr (gen w)))"
  define w1 where "w1 = w\<lparr>op_ctr := Suc (Suc (op_ctr w))\<rparr>"
  define w2 where "w2 = w1\<lparr>gen := (gen w1)\<lparr>clock_ctr := Suc (clock_ctr (gen w1))\<rparr>,
      op_ctr := Suc (Suc (Suc (op_ctr w1))),
      items := [(STORAGE_KEY, ''[]''), (BACKUP_KEY, ''[]''), (BACKUP_TIME_KEY, stamp)]\<rparr>"
  define w3 where "w3 = w2\<lparr>op_ctr := Suc (op_ctr w2)\<rparr>"
  define w5 where "w5 = w3\<lparr>op_ctr := op_ctr w3 + 9, items := [(STORAGE_KEY, ''[]'')]\<rparr>"
  have i1: "items w1 = [(STORAGE_KEY, ''[]'')]" using assms by (simp add: w1_def)
  have i2: "items w2 = [(STORAGE_KEY, ''[]''), (BACKUP_KEY, ''[]''), (BACKUP_TIME_KEY, stamp)]"
    by (simp add: w2_def)
  have i3: "items w3 = [(STORAGE_KEY, ''[]''), (BACKUP_KEY, ''[]''), (BACKUP_TIME_KEY, stamp)]"
    by (simp add: w3_def i2)
  have 1: "isAvailable rt_small w = (Inr True, w1)"
    using isAvailable_small[OF assms] by (simp add: w1_def)
  have 2: "createBackup rt_small w1 = (Inr (), w2)"
    using createBackup_small[OF i1] by (simp add: w2_def stamp_def w1_def)
  have 3: "setItem rt_small STORAGE_KEY (encode (JArr [record1])) w2
             = (Inl QuotaExceededError, w3)"
    using setItem_rejected[OF i2] by (simp add: stamp_def length_demo_to_iso w3_def)
  have 4: "saveTasks rt_small n (Arr [Inst task1]) w5 = None \<Longrightarrow>
           handleQuotaExceeded rt_small (saveTasks rt_small n (Arr [Inst task1])) w3 = None"
    using handleQuotaExceeded_small[OF i3] by (simp add: w5_def)
  have A: "saveTasks rt_small n (Arr [Inst task1]) w5 = None \<longrightarrow>
        saveTasks rt_small (Suc n) (Arr [Inst task1]) w = None"
  proof
    assume a: "saveTasks rt_small n (Arr [Inst task1]) w5 = None"
    have inner: "try_catchF
                   (bindF (total (setItem rt_small STORAGE_KEY (encode (JArr [record1])))) k)
                   (\<lambda>storageError.
                      if storageError = QuotaExceededError then
                        bindF (handleQuotaExceeded rt_small
                                 (saveTasks rt_small n (Arr [Inst task1])))
                          (\<lambda>_. retF (Some False))
                      else throwF storageError) w2 = None" for k
      using 4[OF a] by (simp add: try_catchF_def bindF_def total_def 3 del: encode.simps)
    show "saveTasks rt_small (Suc n) (Arr [Inst task1]) w = None"
      by (simp add: bindF_total lift_def toJSON_task1_small 1 2
            try_catchF_def[of "bindF (total (isAvailable rt_small)) k" for k]
            bindF_def[of "try_catchF m h" for m h] inner
            del: encode.simps)
  qed
  have B: "items w5 = [(STORAGE_KEY, ''[]'')]" by (simp add: w5_def)
  show ?thesis by (rule exI[of _ w5], rule conjI[OF B A])
qed

lemma saveTasks_small_None:
  "items w = [(STORAGE_KEY, ''[]'')] \<Longrightarrow> saveTasks rt_small n (Arr [Inst task1]) w = None"
proof (induction n arbitrary: w)
  case 0
  then show ?case by simp
next
  case (Suc n)
  obtain w' :: world where "items w' = [(STORAGE_KEY, ''[]'')]"
    "saveTasks rt_small n (Arr [Inst task1]) w' = None \<longrightarrow>
     saveTasks rt_small (Suc n) (Arr [Inst task1]) w = None"
    using saveTasks_round[OF Suc.prems, of n] by (elim exE conjE)
  then show ?case using Suc.IH[of w'] by (elim impE) assumption+
qed

text \<open>
  C3. The claim has the save retried once after the cleanup and then return. On a store
  with room for 350 characters that holds the empty collection, saving a collection
  whose text of 288 characters fits beside the primary key alone but not beside the
  backup never returns: every retry writes the backup again, the next cleanup removes it
  again and retries again. Whatever number \<open>n\<close> of nested calls is allowed, the call
  needs more.
\<close>

theorem saveTasks_retries_without_end:
  "saveTasks rt_small n (Arr [Inst task1]) (world0 [(STORAGE_KEY, ''[]'')]) = None"
  by (rule saveTasks_small_None) (simp add: world0_def)

end
